theory Spec2Isabelle
  imports Complex_Main "HOL-Library.AList" "HOL-Library.Log_Nat"
begin

section \<open>Strings\<close>

text \<open>
  A JavaScript string is a sequence of code units. The strings that the program only
  compares with its own literals (roles, statuses, identifiers, header names, messages) are
  lists of characters; free text that the program lower-cases is a list of UTF-16 code
  units, introduced below. \<open>startsWith\<close> and \<open>str_includes\<close> are \<^verbatim>\<open>String.prototype.startsWith\<close> and
  \<^verbatim>\<open>String.prototype.includes\<close> (both from position 0). They compare position by
  position, so they are written for lists of any element type.
\<close>

fun startsWith :: "'a list \<Rightarrow> 'a list \<Rightarrow> bool" where
  "startsWith s [] = True"
| "startsWith [] (c # t) = False"
| "startsWith (d # s) (c # t) = (d = c \<and> startsWith s t)"

fun str_includes :: "'a list \<Rightarrow> 'a list \<Rightarrow> bool" where
  "str_includes [] t = (t = [])"
| "str_includes (c # s) t = (startsWith (c # s) t \<or> str_includes s t)"

text \<open>Decimal numerals, as template literals and \<^verbatim>\<open>String(n)\<close> print an integer.\<close>

fun show_nat :: "nat \<Rightarrow> string" where
  "show_nat n =
     (if n < 10 then [''0123456789'' ! n]
      else show_nat (n div 10) @ [''0123456789'' ! (n mod 10)])"

definition show_int :: "int \<Rightarrow> string" where
  "show_int i = (if i < 0 then CHR ''-'' # show_nat (nat (- i)) else show_nat (nat i))"

text \<open>
  An optional string (\<^verbatim>\<open>string | null | undefined\<close>) tested as a condition: absent and
  empty are falsy, everything else is truthy.
\<close>

definition truthy_string :: "string option \<Rightarrow> bool" where
  "truthy_string v = (case v of None \<Rightarrow> False | Some s \<Rightarrow> s \<noteq> [])"

section \<open>Free text and \<^verbatim>\<open>toLowerCase\<close>\<close>

text \<open>
  Titles, descriptions and search terms are arbitrary text: lists of UTF-16 code units,
  each a number below 65536. \<open>utf16\<close> gives the code units of a literal of ASCII
  characters.
\<close>

type_synonym code_unit = nat

type_synonym ustring = "code_unit list"

definition utf16 :: "string \<Rightarrow> ustring" where
  "utf16 s = map of_char s"

text \<open>
  \<^verbatim>\<open>String.prototype.toLowerCase\<close> is a built-in of the runtime, the Unicode default
  lower-case conversion. The model covers text over an alphabet of two blocks, ASCII and
  the Greek letters U+0391 to U+03A9 and U+03B1 to U+03C9, and answers \<open>None\<close> for a
  string with any other code unit: there the embedding does not say what the runtime
  returns. On the alphabet the conversion is the one of the Unicode character database:
  a capital letter maps to the letter 32 places further, every other character to itself,
  and capital sigma (U+03A3) maps to final sigma (U+03C2) where the condition
  \<^verbatim>\<open>Final_Sigma\<close> of SpecialCasing.txt holds and to sigma (U+03C3) elsewhere. The
  condition looks at the original string: the sigma is preceded by a cased letter, with
  only case-ignorable characters in between, and is not followed in that way by one. Of
  the alphabet, the letters are cased and the characters \<^verbatim>\<open>' . : ^ `\<close> are
  case-ignorable.
\<close>

definition is_ascii :: "code_unit \<Rightarrow> bool" where
  "is_ascii u = (u < 128)"

definition latin_capital :: "code_unit \<Rightarrow> bool" where
  "latin_capital u = (65 \<le> u \<and> u \<le> 90)"

definition latin_small :: "code_unit \<Rightarrow> bool" where
  "latin_small u = (97 \<le> u \<and> u \<le> 122)"

definition greek_capital :: "code_unit \<Rightarrow> bool" where
  "greek_capital u = (913 \<le> u \<and> u \<le> 937 \<and> u \<noteq> 930)"

definition greek_small :: "code_unit \<Rightarrow> bool" where
  "greek_small u = (945 \<le> u \<and> u \<le> 969)"

definition in_alphabet :: "code_unit \<Rightarrow> bool" where
  "in_alphabet u = (is_ascii u \<or> greek_capital u \<or> greek_small u)"

definition cased :: "code_unit \<Rightarrow> bool" where
  "cased u = (latin_capital u \<or> latin_small u \<or> greek_capital u \<or> greek_small u)"

definition case_ignorable :: "code_unit \<Rightarrow> bool" where
  "case_ignorable u = (u = 39 \<or> u = 46 \<or> u = 58 \<or> u = 94 \<or> u = 96)"

text \<open>
  \<open>cased_letter_next us\<close>: going through \<open>us\<close>, the first character that is not
  case-ignorable is a cased letter. It is applied to the characters before the sigma,
  nearest first, and to the characters after it.
\<close>

fun cased_letter_next :: "ustring \<Rightarrow> bool" where
  "cased_letter_next [] = False"
| "cased_letter_next (u # us) = (if case_ignorable u then cased_letter_next us else cased u)"

definition final_sigma :: "ustring \<Rightarrow> ustring \<Rightarrow> bool" where
  "final_sigma preceding following =
     (cased_letter_next preceding \<and> \<not> cased_letter_next following)"

definition lower_unit :: "ustring \<Rightarrow> code_unit \<Rightarrow> ustring \<Rightarrow> code_unit" where
  "lower_unit preceding u following =
     (if u = 931 then (if final_sigma preceding following then 962 else 963)
      else if latin_capital u \<or> greek_capital u then u + 32
      else u)"

fun lower_units :: "ustring \<Rightarrow> ustring \<Rightarrow> ustring" where
  "lower_units preceding [] = []"
| "lower_units preceding (u # following) =
     lower_unit preceding u following # lower_units (u # preceding) following"

definition toLowerCase :: "ustring \<Rightarrow> ustring option" where
  "toLowerCase s = (if list_all in_alphabet s then Some (lower_units [] s) else None)"

section \<open>Data model (types/index.ts)\<close>

text \<open>
  \<^verbatim>\<open>UserRole\<close> and \<^verbatim>\<open>RequestStatus\<close> are unions of string literals: at run time the
  values are strings that arrive in a JSON document, and the code compares and searches
  them as strings. They are strings here; the title and the description are free text. The fields of \<^verbatim>\<open>PurchaseRequest\<close> that no
  modelled function reads (amount, timestamps, the approval history) are left out.
\<close>

record User =
  user_id :: string
  email :: string
  user_name :: string
  role :: string

record PurchaseRequest =
  request_id :: string
  title :: ustring
  description :: ustring
  status :: string
  created_by :: string
  created_by_name :: "string option"
  proforma_link :: "string option"
  purchase_order :: "string option"
  receipt :: "string option"

section \<open>Request detail page (pages/RequestDetail.tsx)\<close>

text \<open>
  \<^verbatim>\<open>user?.role.includes("approver") && request.status === "pending"\<close>: with no user the
  optional chain yields \<^verbatim>\<open>undefined\<close>, which renders nothing.
\<close>

definition canApprove :: "User option \<Rightarrow> PurchaseRequest \<Rightarrow> bool" where
  "canApprove user request =
     (case user of
        None \<Rightarrow> False
      | Some u \<Rightarrow> str_includes (role u) ''approver'' \<and> status request = ''pending'')"

definition canSubmitReceipt :: "User option \<Rightarrow> PurchaseRequest \<Rightarrow> bool" where
  "canSubmitReceipt user request =
     (case user of
        None \<Rightarrow> False
      | Some u \<Rightarrow>
          role u = ''staff'' \<and>
          created_by request = user_id u \<and>
          status request = ''approved'' \<and>
          \<not> truthy_string (receipt request))"

text \<open>
  What the component returns: the skeleton while loading, the not-found message when no
  request was fetched, and otherwise the page, of which the model keeps the two cards that
  are rendered conditionally. \<open>ActionCard\<close> holds the Approve and the Reject button,
  \<open>SubmitReceiptCard\<close> the receipt upload and its submit button.
\<close>

datatype detail_control = ActionCard | SubmitReceiptCard

datatype detail_view = LoadingSkeleton | RequestNotFound | RequestPage "detail_control list"

definition RequestDetail :: "User option \<Rightarrow> PurchaseRequest option \<Rightarrow> bool \<Rightarrow> detail_view" where
  "RequestDetail user request loading =
     (if loading then LoadingSkeleton
      else case request of
        None \<Rightarrow> RequestNotFound
      | Some r \<Rightarrow>
          RequestPage
            ((if canApprove user r then [ActionCard] else []) @
             (if canSubmitReceipt user r then [SubmitReceiptCard] else [])))"

fun detail_controls :: "detail_view \<Rightarrow> detail_control list" where
  "detail_controls LoadingSkeleton = []"
| "detail_controls RequestNotFound = []"
| "detail_controls (RequestPage cs) = cs"

section \<open>Navigation (components/Layout.tsx, pages/Dashboard.tsx, pages/RequestsList.tsx)\<close>

record nav_item =
  label :: string
  to :: string
  roles :: "string list"

definition navItems :: "nav_item list" where
  "navItems =
     [\<lparr>label = ''Dashboard'', to = ''/dashboard'',
        roles = [''staff'', ''approver-level-1'', ''approver-level-2'', ''finance'']\<rparr>,
      \<lparr>label = ''Requests'', to = ''/requests'',
        roles = [''staff'', ''approver-level-1'', ''approver-level-2'', ''finance'']\<rparr>,
      \<lparr>label = ''New Request'', to = ''/requests/new'', roles = [''staff'']\<rparr>]"

text \<open>The sidebar: \<^verbatim>\<open>navItems.filter((item) => user && item.roles.includes(user.role))\<close>.\<close>

definition Layout_menu :: "User option \<Rightarrow> nav_item list" where
  "Layout_menu user =
     filter (\<lambda>item. case user of None \<Rightarrow> False | Some u \<Rightarrow> role u \<in> set (roles item))
       navItems"

text \<open>
  The header button of the dashboard and of the list page, a link to \<^verbatim>\<open>/requests/new\<close>
  rendered under \<^verbatim>\<open>user?.role === "staff"\<close>.
\<close>

definition Dashboard_newRequestButton :: "User option \<Rightarrow> bool" where
  "Dashboard_newRequestButton user = (case user of None \<Rightarrow> False | Some u \<Rightarrow> role u = ''staff'')"

definition RequestsList_newRequestButton :: "User option \<Rightarrow> bool" where
  "RequestsList_newRequestButton user =
     (case user of None \<Rightarrow> False | Some u \<Rightarrow> role u = ''staff'')"

section \<open>List page filter (pages/RequestsList.tsx)\<close>

text \<open>
  The predicate of the filter, in the order of evaluation: the title is lower-cased, then
  the term; when the title does not match, the description is lower-cased. The answer is
  \<open>None\<close> when a string that is lower-cased on the way lies outside the modelled
  alphabet.
\<close>

definition matchesSearch :: "ustring \<Rightarrow> PurchaseRequest \<Rightarrow> bool option" where
  "matchesSearch searchTerm request =
     (case toLowerCase (title request) of
        None \<Rightarrow> None
      | Some lowered_title \<Rightarrow>
          (case toLowerCase searchTerm of
             None \<Rightarrow> None
           | Some lowered_term \<Rightarrow>
               if str_includes lowered_title lowered_term then Some True
               else (case toLowerCase (description request) of
                       None \<Rightarrow> None
                     | Some lowered_description \<Rightarrow>
                         Some (str_includes lowered_description lowered_term))))"

fun filteredRequests ::
  "PurchaseRequest list \<Rightarrow> ustring \<Rightarrow> string \<Rightarrow> PurchaseRequest list option" where
  "filteredRequests [] searchTerm statusFilter = Some []"
| "filteredRequests (request # requests) searchTerm statusFilter =
     (case matchesSearch searchTerm request of
        None \<Rightarrow> None
      | Some matches \<Rightarrow>
          (let matchesStatus = (statusFilter = ''all'' \<or> status request = statusFilter)
           in case filteredRequests requests searchTerm statusFilter of
                None \<Rightarrow> None
              | Some rest \<Rightarrow>
                  Some (if matches \<and> matchesStatus then request # rest else rest)))"

text \<open>
  The specification's reading of the search, for ASCII text: two characters are the same
  letter when they are equal or are the capital and the small form of one letter of A to
  Z, and a string contains a term case-insensitively when some stretch of it has the
  term's length and agrees with the term, position by position, up to that. The
  definition does not use the lower-casing of the program.
\<close>

definition same_letter :: "code_unit \<Rightarrow> code_unit \<Rightarrow> bool" where
  "same_letter a b =
     (a = b \<or> (latin_capital a \<and> b = a + 32) \<or> (latin_capital b \<and> a = b + 32))"

definition contains_ignoring_case :: "ustring \<Rightarrow> ustring \<Rightarrow> bool" where
  "contains_ignoring_case s t = (\<exists>ps m ss. s = ps @ m @ ss \<and> list_all2 same_letter m t)"

section \<open>Dashboard statistics (pages/Dashboard.tsx)\<close>

record stats =
  total :: nat
  pending :: nat
  approved :: nat
  rejected :: nat

definition Dashboard_stats :: "PurchaseRequest list \<Rightarrow> stats" where
  "Dashboard_stats requests =
     \<lparr>total = length requests,
      pending = length (filter (\<lambda>r. status r = ''pending'') requests),
      approved = length (filter (\<lambda>r. status r = ''approved'') requests),
      rejected = length (filter (\<lambda>r. status r = ''rejected'') requests)\<rparr>"

text \<open>
  JavaScript numbers are IEEE 754 binary64 values. A finite value that is not negative is
  modelled by the rational number it stands for. Such a value is a multiple of
  \<^verbatim>\<open>2^-1074\<close> with at most 53 significant bits; \<open>round_binary64\<close> rounds a rational to
  the nearest of these, a tie going to the one whose last bit is even, and \<open>to_double\<close>
  is the result of an operation whose exact value is \<open>x\<close>: \<open>None\<close> stands for the
  results that are outside the model, a negative one or one that rounds to infinity
  (\<^verbatim>\<open>2^1024\<close> or more).
\<close>

definition precision :: nat where
  "precision = 53"

definition min_exponent :: nat where
  "min_exponent = 1074"

definition max_exponent :: nat where
  "max_exponent = 1024"

definition nearest_even :: "rat \<Rightarrow> int" where
  "nearest_even x =
     (let f = \<lfloor>x\<rfloor>; d = x - of_int f
      in if d < 1 / 2 then f
         else if 1 / 2 < d then f + 1
         else if even f then f else f + 1)"

definition round_binary64 :: "rat \<Rightarrow> rat" where
  "round_binary64 x =
     (let scaled = x * 2 ^ min_exponent;
          k = nat (bitlen \<lfloor>scaled\<rfloor> - int precision)
      in of_int (nearest_even (scaled / 2 ^ k)) * 2 ^ k / 2 ^ min_exponent)"

definition to_double :: "rat \<Rightarrow> rat option" where
  "to_double x =
     (if x < 0 \<or> 2 ^ max_exponent \<le> round_binary64 x then None
      else Some (round_binary64 x))"

text \<open>
  Division and multiplication are correctly rounded: the result is the double nearest to
  the exact quotient or product. A quotient by zero is infinite or not a number, outside
  the model. \<^verbatim>\<open>Math.round\<close> is exact: the nearest integer, a half going upwards.
\<close>

definition js_divide :: "rat \<Rightarrow> rat \<Rightarrow> rat option" where
  "js_divide x y = (if y = 0 then None else to_double (x / y))"

definition js_multiply :: "rat \<Rightarrow> rat \<Rightarrow> rat option" where
  "js_multiply x y = to_double (x * y)"

definition Math_round :: "rat \<Rightarrow> int" where
  "Math_round x = \<lfloor>x + 1 / 2\<rfloor>"

text \<open>
  \<^verbatim>\<open>stats.total ? Math.round((stats.approved / stats.total) * 100) : 0\<close>. The counts are
  lengths of arrays, below \<^verbatim>\<open>2^32\<close>, and so are doubles as they are.
\<close>

definition approvalRate :: "stats \<Rightarrow> int option" where
  "approvalRate s =
     (if total s \<noteq> 0 then
        (case js_divide (of_nat (approved s)) (of_nat (total s)) of
           None \<Rightarrow> None
         | Some fraction \<Rightarrow>
             (case js_multiply fraction 100 of
                None \<Rightarrow> None
              | Some percent \<Rightarrow> Some (Math_round percent)))
      else Some 0)"

section \<open>JSON values\<close>

text \<open>
  The values \<^verbatim>\<open>response.json()\<close> can resolve to. An object is the list of its entries
  after parsing, looked up with \<open>map_of\<close>. Numbers are restricted to integers: no
  modelled function computes with a number of a document, it only tests one as a condition
  or prints it.
\<close>

datatype json =
    JNull
  | JBool bool
  | JNum int
  | JStr string
  | JArr "json list"
  | JObj "(string \<times> json) list"

text \<open>
  A JavaScript value read from a document is a \<open>json option\<close>, \<open>None\<close> standing for
  \<^verbatim>\<open>undefined\<close>. \<open>truthy\<close> is the test that \<^verbatim>\<open>if (v)\<close> and \<^verbatim>\<open>v || d\<close> apply.
\<close>

fun truthy_json :: "json \<Rightarrow> bool" where
  "truthy_json JNull = False"
| "truthy_json (JBool b) = b"
| "truthy_json (JNum n) = (n \<noteq> 0)"
| "truthy_json (JStr s) = (s \<noteq> [])"
| "truthy_json (JArr xs) = True"
| "truthy_json (JObj kvs) = True"

definition truthy :: "json option \<Rightarrow> bool" where
  "truthy v = (case v of None \<Rightarrow> False | Some j \<Rightarrow> truthy_json j)"

text \<open>
  The string conversion applied by \<^verbatim>\<open>new Error(v)\<close>, by a template literal and by
  \<^verbatim>\<open>localStorage.setItem\<close>: an array prints its elements separated by commas, with
  nothing for a null element, and an object prints as \<^verbatim>\<open>[object Object]\<close>.
\<close>

fun join_comma :: "string list \<Rightarrow> string" where
  "join_comma [] = []"
| "join_comma [s] = s"
| "join_comma (s # t # ss) = s @ '','' @ join_comma (t # ss)"

fun ToString :: "json \<Rightarrow> string" and element_string :: "json \<Rightarrow> string" where
  "ToString JNull = ''null''"
| "ToString (JBool b) = (if b then ''true'' else ''false'')"
| "ToString (JNum n) = show_int n"
| "ToString (JStr s) = s"
| "ToString (JArr xs) = join_comma (map element_string xs)"
| "ToString (JObj kvs) = ''[object Object]''"
| "element_string j = (if j = JNull then [] else ToString j)"

definition template_string :: "json option \<Rightarrow> string" where
  "template_string v = (case v of None \<Rightarrow> ''undefined'' | Some j \<Rightarrow> ToString j)"

text \<open>
  Exceptions are values. The three constructors are the error classes that the modelled
  code can raise, each with its message; all three are instances of \<^verbatim>\<open>Error\<close>.
\<close>

datatype js_error = Error string | TypeError string | SyntaxError string

fun error_message :: "js_error \<Rightarrow> string" where
  "error_message (Error m) = m"
| "error_message (TypeError m) = m"
| "error_message (SyntaxError m) = m"

text \<open>
  Reading a property \<^verbatim>\<open>j.k\<close>: on \<^verbatim>\<open>null\<close> it raises a TypeError (the wording of the
  message is the engine's), on an object it is the entry or \<^verbatim>\<open>undefined\<close>, and on every
  other value it is \<^verbatim>\<open>undefined\<close> for the names read by this code (\<^verbatim>\<open>message\<close>,
  \<^verbatim>\<open>token\<close>, \<^verbatim>\<open>results\<close>, \<^verbatim>\<open>id\<close>), none of which is a built-in property.
\<close>

fun getProp :: "json \<Rightarrow> string \<Rightarrow> js_error + json option" where
  "getProp JNull k =
     Inl (TypeError
       (''Cannot read properties of null (reading '' @ [CHR 0x27] @ k @ [CHR 0x27] @ '')''))"
| "getProp (JObj kvs) k = Inr (map_of kvs k)"
| "getProp j k = Inr None"

fun isArray :: "json \<Rightarrow> bool" where
  "isArray (JArr xs) = True"
| "isArray j = False"

section \<open>HTTP and the browser state\<close>

record File =
  file_name :: string
  file_size :: nat

datatype form_value = FormText string | FormFile File

text \<open>
  A request body: a string, the string that \<^verbatim>\<open>JSON.stringify\<close> makes of a value (kept
  as the value), or a \<^verbatim>\<open>FormData\<close> object with its entries in order.
\<close>

datatype body = StringBody string | JsonBody json | FormData "(string \<times> form_value) list"

fun isFormData :: "body option \<Rightarrow> bool" where
  "isFormData (Some (FormData entries)) = True"
| "isFormData b = False"

text \<open>
  \<^verbatim>\<open>HeadersInit\<close>, the type of the \<^verbatim>\<open>headers\<close> a caller may pass: a
  \<^verbatim>\<open>Headers\<close> instance, an array of name and value pairs, or a plain object, given by
  its entries with each name once.
\<close>

datatype headers_init =
    HeadersInstance "(string \<times> string) list"
  | HeaderPairs "(string \<times> string) list"
  | HeaderRecord "(string \<times> string) list"

text \<open>
  \<^verbatim>\<open>ApiRequestOptions = RequestInit & { auth?: boolean }\<close>, with the fields of
  \<^verbatim>\<open>RequestInit\<close> that a caller sets.
\<close>

record ApiRequestOptions =
  opt_method :: "string option"
  opt_headers :: "headers_init option"
  opt_body :: "body option"
  opt_auth :: "bool option"

definition no_options :: ApiRequestOptions where
  "no_options = \<lparr>opt_method = None, opt_headers = None, opt_body = None, opt_auth = None\<rparr>"

text \<open>
  A header name counts without regard to the case of its letters: \<^verbatim>\<open>fetch\<close> compares
  names after lower-casing the bytes A to Z.
\<close>

definition upper_case_letters :: string where
  "upper_case_letters = ''ABCDEFGHIJKLMNOPQRSTUVWXYZ''"

definition lower_case_letters :: string where
  "lower_case_letters = ''abcdefghijklmnopqrstuvwxyz''"

definition byte_lowercase :: "string \<Rightarrow> string" where
  "byte_lowercase s =
     map (\<lambda>c. case map_of (zip upper_case_letters lower_case_letters) c of
                 None \<Rightarrow> c
               | Some d \<Rightarrow> d) s"

definition has_header :: "string \<Rightarrow> (string \<times> string) list \<Rightarrow> bool" where
  "has_header name headers =
     list_ex (\<lambda>entry. byte_lowercase (fst entry) = byte_lowercase name) headers"

text \<open>
  The request handed to \<^verbatim>\<open>fetch\<close>. Its headers are the entries of the plain object
  that \<open>apiRequest\<close> builds, in the order of that object, with the values as strings.
\<close>

record http_request =
  req_url :: string
  req_method :: "string option"
  req_headers :: "(string \<times> string) list"
  req_body :: "body option"

text \<open>
  A response: its status and what \<^verbatim>\<open>response.json()\<close> resolves to, \<open>None\<close> when the
  body is not a JSON document and the promise rejects. \<^verbatim>\<open>response.ok\<close> holds for the
  statuses 200 to 299.
\<close>

record http_response =
  http_status :: nat
  json_body :: "json option"

definition ok :: "http_response \<Rightarrow> bool" where
  "ok r = (200 \<le> http_status r \<and> http_status r \<le> 299)"

datatype fetch_result = NetworkFailure string | Response http_response

text \<open>
  The server and the transport are outside the program: \<^verbatim>\<open>fetch\<close> is a parameter that
  answers a request, given the requests sent before it.
\<close>

type_synonym network = "http_request list \<Rightarrow> http_request \<Rightarrow> fetch_result"

definition always_respond :: "http_response \<Rightarrow> network" where
  "always_respond r = (\<lambda>history request. Response r)"

record toast =
  toast_title :: string
  toast_description :: string
  variant :: "string option"

text \<open>
  The state outside the program's variables: the build-time setting
  \<^verbatim>\<open>VITE_API_URL\<close>, \<^verbatim>\<open>localStorage\<close>, the requests handed to \<^verbatim>\<open>fetch\<close> (oldest first),
  the notifications shown and the routes navigated to.
\<close>

record world =
  vite_api_url :: "string option"
  storage :: "string \<rightharpoonup> string"
  sent :: "http_request list"
  toasts :: "toast list"
  navigated :: "string list"

definition initial_world :: world where
  "initial_world =
     \<lparr>vite_api_url = None, storage = Map.empty, sent = [], toasts = [], navigated = []\<rparr>"

section \<open>API client (lib/api.ts)\<close>

definition API_URL :: "world \<Rightarrow> string" where
  "API_URL w =
     (case vite_api_url w of
        None \<Rightarrow> ''http://localhost:8000/api''
      | Some u \<Rightarrow> if u \<noteq> [] then u else ''http://localhost:8000/api'')"

definition getAuthToken :: "world \<Rightarrow> string option" where
  "getAuthToken w = storage w ''auth_token''"

definition setAuthToken :: "string \<Rightarrow> world \<Rightarrow> world" where
  "setAuthToken token w = w\<lparr>storage := (storage w)(''auth_token'' \<mapsto> token)\<rparr>"

definition removeAuthToken :: "world \<Rightarrow> world" where
  "removeAuthToken w = w\<lparr>storage := (storage w)(''auth_token'' := None)\<rparr>"

text \<open>\<^verbatim>\<open>const { auth = true, ...fetchOptions } = options\<close>.\<close>

definition auth_enabled :: "ApiRequestOptions \<Rightarrow> bool" where
  "auth_enabled options = (case opt_auth options of None \<Rightarrow> True | Some a \<Rightarrow> a)"

text \<open>
  The headers object starts as \<^verbatim>\<open>{ ...fetchOptions.headers }\<close>, the own enumerable
  properties of what the caller passed: nothing for no headers and for a \<^verbatim>\<open>Headers\<close>
  instance, the entries of a plain object, and for an array of pairs one property per
  index whose value is the pair, which reads as the name and the value joined by a comma.
\<close>

fun indexed_pairs :: "nat \<Rightarrow> (string \<times> string) list \<Rightarrow> (string \<times> string) list" where
  "indexed_pairs i [] = []"
| "indexed_pairs i ((name, v) # pairs) =
     (show_nat i, name @ '','' @ v) # indexed_pairs (Suc i) pairs"

fun spread_headers :: "headers_init option \<Rightarrow> (string \<times> string) list" where
  "spread_headers None = []"
| "spread_headers (Some (HeadersInstance entries)) = []"
| "spread_headers (Some (HeaderPairs pairs)) = indexed_pairs 0 pairs"
| "spread_headers (Some (HeaderRecord entries)) = entries"

text \<open>
  Then the two assignments. An assignment to a name that is present replaces its value,
  one to a new name adds an entry.
\<close>

definition with_authorization ::
  "ApiRequestOptions \<Rightarrow> string option \<Rightarrow> (string \<times> string) list \<Rightarrow> (string \<times> string) list" where
  "with_authorization options token headers =
     (case token of
        None \<Rightarrow> headers
      | Some t \<Rightarrow>
          if auth_enabled options \<and> t \<noteq> []
          then AList.update ''Authorization'' (''Bearer '' @ t) headers
          else headers)"

definition with_content_type ::
  "ApiRequestOptions \<Rightarrow> (string \<times> string) list \<Rightarrow> (string \<times> string) list" where
  "with_content_type options headers =
     (if \<not> isFormData (opt_body options)
      then AList.update ''Content-Type'' ''application/json'' headers
      else headers)"

definition build_request :: "world \<Rightarrow> string \<Rightarrow> ApiRequestOptions \<Rightarrow> http_request" where
  "build_request w endpoint options =
     \<lparr>req_url = API_URL w @ endpoint,
      req_method = opt_method options,
      req_headers =
        with_content_type options
          (with_authorization options (getAuthToken w) (spread_headers (opt_headers options))),
      req_body = opt_body options\<rparr>"

text \<open>
  \<open>apiRequest\<close> returns the value the promise resolves to (\<open>Inr\<close>) or the error it
  rejects with (\<open>Inl\<close>), and the world after the call. A rejected \<^verbatim>\<open>fetch\<close> and a
  successful response whose body does not parse reject the promise as they are; the
  wording of the SyntaxError is the engine's.
\<close>

definition apiRequest ::
  "network \<Rightarrow> string \<Rightarrow> ApiRequestOptions \<Rightarrow> world \<Rightarrow> (js_error + json) \<times> world" where
  "apiRequest net endpoint options w =
     (let request = build_request w endpoint options;
          w' = w\<lparr>sent := sent w @ [request]\<rparr>
      in case net (sent w) request of
           NetworkFailure m \<Rightarrow> (Inl (TypeError m), w')
         | Response response \<Rightarrow>
             if \<not> ok response then
               (let error = (case json_body response of None \<Rightarrow> JObj [] | Some j \<Rightarrow> j)
                in case getProp error ''message'' of
                     Inl e \<Rightarrow> (Inl e, w')
                   | Inr m \<Rightarrow>
                       (Inl (Error (if truthy m then template_string m
                                    else ''API Error: '' @ show_nat (http_status response))),
                        w'))
             else
               (case json_body response of
                  None \<Rightarrow> (Inl (SyntaxError ''Unexpected token''), w')
                | Some j \<Rightarrow> (Inr j, w')))"

definition login_options :: "string \<Rightarrow> string \<Rightarrow> ApiRequestOptions" where
  "login_options email_address password =
     \<lparr>opt_method = Some ''POST'', opt_headers = None,
      opt_body = Some (JsonBody (JObj [(''email'', JStr email_address),
                                       (''password'', JStr password)])),
      opt_auth = Some False\<rparr>"

definition authAPI_login ::
  "network \<Rightarrow> string \<Rightarrow> string \<Rightarrow> world \<Rightarrow> (js_error + json) \<times> world" where
  "authAPI_login net email_address password w =
     (case apiRequest net ''/auth/login/'' (login_options email_address password) w of
        (Inl e, w') \<Rightarrow> (Inl e, w')
      | (Inr data, w') \<Rightarrow>
          (case getProp data ''token'' of
             Inl e \<Rightarrow> (Inl e, w')
           | Inr token \<Rightarrow>
               (Inr data,
                if truthy token then setAuthToken (template_string token) w' else w')))"

definition authAPI_logout :: "world \<Rightarrow> world" where
  "authAPI_logout w = removeAuthToken w"

definition authAPI_getCurrentUser :: "network \<Rightarrow> world \<Rightarrow> (js_error + json) \<times> world" where
  "authAPI_getCurrentUser net w = apiRequest net ''/auth/user/'' no_options w"

definition requestsAPI_list :: "network \<Rightarrow> world \<Rightarrow> (js_error + json) \<times> world" where
  "requestsAPI_list net w =
     (case apiRequest net ''/requests/'' no_options w of
        (Inl e, w') \<Rightarrow> (Inl e, w')
      | (Inr data, w') \<Rightarrow>
          if isArray data then (Inr data, w')
          else (case getProp data ''results'' of
                  Inl e \<Rightarrow> (Inl e, w')
                | Inr None \<Rightarrow> (Inr (JArr []), w')
                | Inr (Some JNull) \<Rightarrow> (Inr (JArr []), w')
                | Inr (Some results) \<Rightarrow> (Inr results, w')))"

definition create_options :: "(string \<times> form_value) list \<Rightarrow> ApiRequestOptions" where
  "create_options data =
     \<lparr>opt_method = Some ''POST'', opt_headers = None, opt_body = Some (FormData data),
      opt_auth = None\<rparr>"

definition requestsAPI_create ::
  "network \<Rightarrow> (string \<times> form_value) list \<Rightarrow> world \<Rightarrow> (js_error + json) \<times> world" where
  "requestsAPI_create net data w = apiRequest net ''/requests/'' (create_options data) w"

section \<open>Creation form (pages/NewRequest.tsx)\<close>

record new_request_state =
  form_title :: string
  form_description :: string
  form_amount :: string
  proforma :: "File option"
  loading :: bool

definition missing_proforma_toast :: toast where
  "missing_proforma_toast =
     \<lparr>toast_title = ''Missing proforma'',
      toast_description = ''Please upload a proforma document'',
      variant = Some ''destructive''\<rparr>"

definition request_created_toast :: toast where
  "request_created_toast =
     \<lparr>toast_title = ''Request created'',
      toast_description = ''Your purchase request has been submitted for approval'',
      variant = None\<rparr>"

definition create_failed_toast :: "js_error \<Rightarrow> toast" where
  "create_failed_toast e =
     \<lparr>toast_title = ''Failed to create request'',
      toast_description = error_message e,
      variant = Some ''destructive''\<rparr>"

definition show_toast :: "toast \<Rightarrow> world \<Rightarrow> world" where
  "show_toast t w = w\<lparr>toasts := toasts w @ [t]\<rparr>"

definition navigate :: "string \<Rightarrow> world \<Rightarrow> world" where
  "navigate route w = w\<lparr>navigated := navigated w @ [route]\<rparr>"

text \<open>
  The submit handler. \<^verbatim>\<open>e.preventDefault()\<close> suppresses the browser's own submission of
  the form, so the only requests are those of the API client. Without a proforma the
  handler returns before \<^verbatim>\<open>setLoading(true)\<close>; otherwise the \<^verbatim>\<open>finally\<close> block leaves
  \<open>loading\<close> false. The success notification is shown before \<^verbatim>\<open>response.id\<close> is read.
\<close>

definition handleSubmit ::
  "network \<Rightarrow> new_request_state \<Rightarrow> world \<Rightarrow> new_request_state \<times> world" where
  "handleSubmit net st w =
     (case proforma st of
        None \<Rightarrow> (st, show_toast missing_proforma_toast w)
      | Some f \<Rightarrow>
          (let formDataToSend =
                 [(''title'', FormText (form_title st)),
                  (''description'', FormText (form_description st)),
                  (''amount'', FormText (form_amount st)),
                  (''proforma'', FormFile f)]
           in (st\<lparr>loading := False\<rparr>,
               case requestsAPI_create net formDataToSend w of
                 (Inl e, w1) \<Rightarrow> show_toast (create_failed_toast e) w1
               | (Inr response, w1) \<Rightarrow>
                   (let w2 = show_toast request_created_toast w1
                    in case getProp response ''id'' of
                         Inl e \<Rightarrow> show_toast (create_failed_toast e) w2
                       | Inr i \<Rightarrow> navigate (''/requests/'' @ template_string i) w2))))"

text \<open>
  What the component returns: always the page with the form, whose submit button is
  disabled while \<open>loading\<close>. The component reads no user and no role.
\<close>

datatype new_request_view = CreationFormPage (submit_disabled: bool)

definition NewRequest :: "new_request_state \<Rightarrow> new_request_view" where
  "NewRequest st = CreationFormPage (loading st)"

section \<open>Route of the creation form\<close>

text \<open>
  Modelled from the spec: the routing of the application (the route table and whatever
  guards it) is not among the sources, and it is what decides for whom the component
  \<open>NewRequest\<close> is rendered. Section 4.2 of the specification gives the rule,
  "Creation form visible only to staff": the route \<^verbatim>\<open>/requests/new\<close> shows the creation
  view to a signed-in user whose role is \<^verbatim>\<open>staff\<close> and shows it to nobody else.
\<close>

definition creation_route :: "User option \<Rightarrow> new_request_state \<Rightarrow> new_request_view option" where
  "creation_route user st =
     (case user of
        None \<Rightarrow> None
      | Some u \<Rightarrow> if role u = ''staff'' then Some (NewRequest st) else None)"

text \<open>
  Modelled from the spec: the submit action as a user can trigger it, through the view
  that the route above shows them. Section 8 of the specification: "For all roles not
  equal to staff, the creation view and its submit action must be unreachable/hidden."
  With no view, or with the button disabled, nothing is triggered (\<open>None\<close>); otherwise
  the handler of the component runs.
\<close>

definition submit_creation_form ::
  "network \<Rightarrow> User option \<Rightarrow> new_request_state \<Rightarrow> world \<Rightarrow>
     (new_request_state \<times> world) option" where
  "submit_creation_form net user st w =
     (case creation_route user st of
        None \<Rightarrow> None
      | Some view \<Rightarrow> if submit_disabled view then None else Some (handleSubmit net st w))"

section \<open>Example data\<close>

text \<open>
  Users, requests, options and responses on which the model is run. \<open>initial_form\<close> is
  the state the creation form starts with.
\<close>

definition staff_member :: User where
  "staff_member = \<lparr>user_id = ''u1'', email = ''staff@company.com'',
                  user_name = ''Sam Staff'', role = ''staff''\<rparr>"

definition approver_1 :: User where
  "approver_1 = \<lparr>user_id = ''u2'', email = ''approver1@company.com'',
                  user_name = ''Ada Approver'', role = ''approver-level-1''\<rparr>"

definition finance_officer :: User where
  "finance_officer = \<lparr>user_id = ''u4'', email = ''finance@company.com'',
                  user_name = ''Fay Finance'', role = ''finance''\<rparr>"

definition laptop_request :: "string \<Rightarrow> string option \<Rightarrow> PurchaseRequest" where
  "laptop_request st rc =
     \<lparr>request_id = ''r1'', title = utf16 ''Laptop Renewal'',
      description = utf16 ''Two laptops for QA'',
      status = st, created_by = ''u1'', created_by_name = Some ''Sam Staff'',
      proforma_link = Some ''/media/proforma.pdf'', purchase_order = None, receipt = rc\<rparr>"

definition three_requests :: "PurchaseRequest list" where
  "three_requests =
     [laptop_request ''pending'' None, laptop_request ''approved'' None,
      laptop_request ''rejected'' None]"

text \<open>
  Forty requests of which twenty-three are approved, and a request whose title is the two
  Greek capitals alpha and sigma.
\<close>

definition forty_requests :: "PurchaseRequest list" where
  "forty_requests =
     replicate 23 (laptop_request ''approved'' None) @
     replicate 17 (laptop_request ''pending'' None)"

definition sigma_request :: PurchaseRequest where
  "sigma_request = (laptop_request ''pending'' None)\<lparr>request_id := ''r7'', title := [913, 931]\<rparr>"

definition filled_form :: new_request_state where
  "filled_form =
     \<lparr>form_title = ''Laptop Renewal'', form_description = ''Two laptops for QA'',
      form_amount = ''2400.00'',
      proforma = Some \<lparr>file_name = ''proforma.pdf'', file_size = 2048\<rparr>,
      loading = False\<rparr>"

definition created_response :: http_response where
  "created_response =
     \<lparr>http_status = 201,
      json_body = Some (JObj [(''id'', JStr ''r9''), (''status'', JStr ''pending'')])\<rparr>"

definition null_error_response :: http_response where
  "null_error_response = \<lparr>http_status = 500, json_body = Some JNull\<rparr>"

definition raw_list_response :: http_response where
  "raw_list_response =
     \<lparr>http_status = 200, json_body = Some (JArr [JObj [(''id'', JStr ''r1'')]])\<rparr>"

definition paginated_list_response :: http_response where
  "paginated_list_response =
     \<lparr>http_status = 200,
      json_body = Some (JObj [(''count'', JNum 1),
                              (''results'', JArr [JObj [(''id'', JStr ''r1'')]])])\<rparr>"

definition token_response :: http_response where
  "token_response =
     \<lparr>http_status = 200,
      json_body = Some (JObj [(''token'', JStr ''abc123''), (''user_id'', JNum 7)])\<rparr>"

definition denied_response :: http_response where
  "denied_response =
     \<lparr>http_status = 401,
      json_body = Some (JObj [(''message'', JStr ''Invalid credentials'')])\<rparr>"

definition initial_form :: new_request_state where
  "initial_form =
     \<lparr>form_title = [], form_description = [], form_amount = [], proforma = None,
      loading = False\<rparr>"

definition basic_auth_options :: ApiRequestOptions where
  "basic_auth_options =
     \<lparr>opt_method = None,
      opt_headers = Some (HeaderRecord [(''Authorization'', ''Basic c3RhZmY6cHc='')]),
      opt_body = None, opt_auth = Some False\<rparr>"

section \<open>Strings: substring search\<close>

lemma startsWith_iff: "startsWith s t \<longleftrightarrow> (\<exists>ss. s = t @ ss)"
  by (induction s t rule: startsWith.induct) auto

lemma str_includes_iff: "str_includes s t \<longleftrightarrow> (\<exists>ps ss. s = ps @ t @ ss)"
proof (induction s)
  case Nil
  then show ?case by auto
next
  case (Cons c s)
  show ?case
  proof
    assume "str_includes (c # s) t"
    then consider "startsWith (c # s) t" | "str_includes s t" by auto
    then show "\<exists>ps ss. c # s = ps @ t @ ss"
    proof cases
      case 1
      then obtain ss where "c # s = t @ ss" by (auto simp: startsWith_iff)
      then have "c # s = [] @ t @ ss" by simp
      then show ?thesis by blast
    next
      case 2
      then obtain ps ss where "s = ps @ t @ ss" using Cons.IH by auto
      then have "c # s = (c # ps) @ t @ ss" by simp
      then show ?thesis by blast
    qed
  next
    assume "\<exists>ps ss. c # s = ps @ t @ ss"
    then obtain ps ss where eq: "c # s = ps @ t @ ss" by blast
    show "str_includes (c # s) t"
    proof (cases ps)
      case Nil
      with eq have "startsWith (c # s) t" by (auto simp: startsWith_iff)
      then show ?thesis by simp
    next
      case (Cons p ps')
      with eq have "s = ps' @ t @ ss" by simp
      then have "str_includes s t" using Cons.IH by blast
      then show ?thesis by simp
    qed
  qed
qed

section \<open>Role-gated controls\<close>

lemma ActionCard_shown_iff:
  "ActionCard \<in> set (detail_controls (RequestDetail user request is_loading)) \<longleftrightarrow>
     \<not> is_loading \<and> (\<exists>r. request = Some r \<and> canApprove user r)"
  by (cases request) (auto simp: RequestDetail_def)

lemma SubmitReceiptCard_shown_iff:
  "SubmitReceiptCard \<in> set (detail_controls (RequestDetail user request is_loading)) \<longleftrightarrow>
     \<not> is_loading \<and> (\<exists>r. request = Some r \<and> canSubmitReceipt user r)"
  by (cases request) (auto simp: RequestDetail_def)

text \<open>
  Claim C1. On the rendered detail page the card with the Approve and Reject buttons is
  shown exactly when the role of the user contains \<^verbatim>\<open>approver\<close> as a substring and the
  status of the request is \<^verbatim>\<open>pending\<close>. In particular a request whose status is
  \<^verbatim>\<open>rejected\<close> or \<^verbatim>\<open>approved\<close> shows the card to nobody: for no user, signed in or
  not, and in no state of the page.
\<close>

theorem approve_reject_controls:
  "(ActionCard \<in> set (detail_controls (RequestDetail (Some u) (Some r) False)) \<longleftrightarrow>
      (\<exists>ps ss. role u = ps @ ''approver'' @ ss) \<and> status r = ''pending'') \<and>
   (status r = ''rejected'' \<or> status r = ''approved'' \<longrightarrow>
      (\<forall>user is_loading.
         ActionCard \<notin> set (detail_controls (RequestDetail user (Some r) is_loading))))"
proof (intro conjI impI allI)
  show "ActionCard \<in> set (detail_controls (RequestDetail (Some u) (Some r) False)) \<longleftrightarrow>
      (\<exists>ps ss. role u = ps @ ''approver'' @ ss) \<and> status r = ''pending''"
    by (simp add: ActionCard_shown_iff canApprove_def str_includes_iff)
next
  fix user is_loading
  assume "status r = ''rejected'' \<or> status r = ''approved''"
  then have "\<not> canApprove user r"
    by (cases user) (auto simp: canApprove_def)
  then show "ActionCard \<notin> set (detail_controls (RequestDetail user (Some r) is_loading))"
    by (simp add: ActionCard_shown_iff)
qed

theorem approve_reject_controls_witness:
  "ActionCard \<in> set (detail_controls
       (RequestDetail (Some approver_1) (Some (laptop_request ''pending'' None)) False)) \<and>
   status (laptop_request ''rejected'' None) = ''rejected'' \<and>
   ActionCard \<notin> set (detail_controls
       (RequestDetail (Some approver_1) (Some (laptop_request ''rejected'' None)) False))"
  using approve_reject_controls [of approver_1 "laptop_request ''pending'' None"]
        approve_reject_controls [of approver_1 "laptop_request ''rejected'' None"]
  by (simp add: approver_1_def laptop_request_def RequestDetail_def canApprove_def)

text \<open>
  Claim C3. On the rendered detail page the receipt card is shown exactly when the role of
  the user is \<^verbatim>\<open>staff\<close>, the user is the creator of the request, the status is
  \<^verbatim>\<open>approved\<close> and the request has no receipt link, an empty link counting as none. In
  particular an approved request with a non-empty receipt link shows the card to nobody.
\<close>

theorem receipt_control:
  "(SubmitReceiptCard \<in> set (detail_controls (RequestDetail (Some u) (Some r) False)) \<longleftrightarrow>
      role u = ''staff'' \<and> user_id u = created_by r \<and> status r = ''approved'' \<and>
      (receipt r = None \<or> receipt r = Some [])) \<and>
   (status r = ''approved'' \<and> receipt r = Some link \<and> link \<noteq> [] \<longrightarrow>
      (\<forall>user is_loading.
         SubmitReceiptCard \<notin> set (detail_controls (RequestDetail user (Some r) is_loading))))"
proof (intro conjI impI allI)
  show "SubmitReceiptCard \<in> set (detail_controls (RequestDetail (Some u) (Some r) False)) \<longleftrightarrow>
      role u = ''staff'' \<and> user_id u = created_by r \<and> status r = ''approved'' \<and>
      (receipt r = None \<or> receipt r = Some [])"
    by (auto simp: SubmitReceiptCard_shown_iff canSubmitReceipt_def truthy_string_def
        split: option.splits)
next
  fix user is_loading
  assume "status r = ''approved'' \<and> receipt r = Some link \<and> link \<noteq> []"
  then have "\<not> canSubmitReceipt user r"
    by (cases user) (auto simp: canSubmitReceipt_def truthy_string_def)
  then show "SubmitReceiptCard \<notin> set (detail_controls (RequestDetail user (Some r) is_loading))"
    by (simp add: SubmitReceiptCard_shown_iff)
qed

theorem receipt_control_witness:
  "SubmitReceiptCard \<in> set (detail_controls
       (RequestDetail (Some staff_member) (Some (laptop_request ''approved'' None)) False)) \<and>
   status (laptop_request ''approved'' (Some ''/media/receipt.pdf'')) = ''approved'' \<and>
   receipt (laptop_request ''approved'' (Some ''/media/receipt.pdf'')) = Some ''/media/receipt.pdf'' \<and>
   SubmitReceiptCard \<notin> set (detail_controls
       (RequestDetail (Some staff_member)
          (Some (laptop_request ''approved'' (Some ''/media/receipt.pdf''))) False))"
  using receipt_control [of staff_member "laptop_request ''approved'' None"]
        receipt_control [of staff_member "laptop_request ''approved'' (Some ''/media/receipt.pdf'')"
                            "''/media/receipt.pdf''"]
  by (simp add: staff_member_def laptop_request_def)

section \<open>List filter\<close>

lemma map_eq_iff_list_all2:
  "map f a = map f b \<longleftrightarrow> list_all2 (\<lambda>x y. f x = f y) a b"
proof (induction a arbitrary: b)
  case Nil
  then show ?case by auto
next
  case (Cons x a)
  then show ?case by (cases b) auto
qed

lemma lower_units_ascii:
  "list_all is_ascii s \<Longrightarrow>
     lower_units preceding s = map (\<lambda>u. if latin_capital u then u + 32 else u) s"
  by (induction s arbitrary: preceding)
     (auto simp: lower_unit_def is_ascii_def greek_capital_def)

lemma toLowerCase_ascii:
  assumes "list_all is_ascii s"
  shows "toLowerCase s = Some (map (\<lambda>u. if latin_capital u then u + 32 else u) s)"
proof -
  have "list_all in_alphabet s"
    using assms by (simp add: list_all_iff in_alphabet_def)
  with assms show ?thesis
    by (simp add: toLowerCase_def lower_units_ascii)
qed

lemma same_letter_iff:
  "(if latin_capital a then a + 32 else a) = (if latin_capital b then b + 32 else b) \<longleftrightarrow>
     same_letter a b"
  by (auto simp: same_letter_def latin_capital_def)

lemma includes_lowered_iff:
  "str_includes (map (\<lambda>u. if latin_capital u then u + 32 else u) s)
                (map (\<lambda>u. if latin_capital u then u + 32 else u) t) \<longleftrightarrow>
     contains_ignoring_case s t"
proof -
  define f :: "code_unit \<Rightarrow> code_unit" where "f = (\<lambda>u. if latin_capital u then u + 32 else u)"
  have same: "map f m = map f t \<longleftrightarrow> list_all2 same_letter m t" for m
    unfolding map_eq_iff_list_all2 f_def same_letter_iff ..
  have "str_includes (map f s) (map f t) \<longleftrightarrow> contains_ignoring_case s t"
  proof
    assume "str_includes (map f s) (map f t)"
    then obtain ps ss where "map f s = ps @ map f t @ ss"
      by (auto simp: str_includes_iff)
    then have "\<exists>s1 s23. s = s1 @ s23 \<and> ps = map f s1 \<and> map f t @ ss = map f s23"
      by (simp only: map_eq_append_conv)
    then obtain s1 s23 where s: "s = s1 @ s23" and "map f s23 = map f t @ ss"
      by auto
    then have "\<exists>m s3. s23 = m @ s3 \<and> map f t = map f m \<and> ss = map f s3"
      by (simp only: map_eq_append_conv)
    then obtain m s3 where s23: "s23 = m @ s3" and m: "map f m = map f t"
      by auto
    from m have "list_all2 same_letter m t" by (simp only: same)
    with s s23 show "contains_ignoring_case s t"
      unfolding contains_ignoring_case_def by blast
  next
    assume "contains_ignoring_case s t"
    then obtain ps m ss where s: "s = ps @ m @ ss" and "list_all2 same_letter m t"
      unfolding contains_ignoring_case_def by blast
    then have "map f m = map f t" by (simp only: same)
    with s have "map f s = map f ps @ map f t @ map f ss" by simp
    then show "str_includes (map f s) (map f t)"
      unfolding str_includes_iff by blast
  qed
  then show ?thesis by (simp only: f_def)
qed

lemma matchesSearch_ascii:
  assumes "list_all is_ascii searchTerm" and "list_all is_ascii (title r)"
    and "list_all is_ascii (description r)"
  shows "matchesSearch searchTerm r =
           Some (contains_ignoring_case (title r) searchTerm \<or>
                 contains_ignoring_case (description r) searchTerm)"
  using assms by (simp add: matchesSearch_def toLowerCase_ascii includes_lowered_iff)

text \<open>
  Claim C4, as the code has it. For every list of requests, search term and status filter
  whose texts are ASCII, the filter returns, in their order, exactly the requests whose
  title or description contains the term case-insensitively and whose status is the
  selected one (every status when the filter is \<^verbatim>\<open>all\<close>): as a set, the requests that
  contain the term case-insensitively intersected with those of the selected status.
\<close>

theorem filteredRequests_ascii:
  assumes "list_all is_ascii searchTerm"
    and "\<forall>r \<in> set requests. list_all is_ascii (title r) \<and> list_all is_ascii (description r)"
  shows "filteredRequests requests searchTerm statusFilter =
           Some (filter (\<lambda>r. (contains_ignoring_case (title r) searchTerm \<or>
                               contains_ignoring_case (description r) searchTerm) \<and>
                              (statusFilter = ''all'' \<or> status r = statusFilter)) requests) \<and>
         set (filter (\<lambda>r. (contains_ignoring_case (title r) searchTerm \<or>
                            contains_ignoring_case (description r) searchTerm) \<and>
                           (statusFilter = ''all'' \<or> status r = statusFilter)) requests) =
           {r \<in> set requests. contains_ignoring_case (title r) searchTerm \<or>
                               contains_ignoring_case (description r) searchTerm} \<inter>
           (if statusFilter = ''all'' then set requests
            else {r \<in> set requests. status r = statusFilter})"
proof
  show "filteredRequests requests searchTerm statusFilter =
           Some (filter (\<lambda>r. (contains_ignoring_case (title r) searchTerm \<or>
                               contains_ignoring_case (description r) searchTerm) \<and>
                              (statusFilter = ''all'' \<or> status r = statusFilter)) requests)"
    using assms(2)
  proof (induction requests)
    case Nil
    show ?case by simp
  next
    case (Cons r requests)
    then show ?case
      using assms(1) by (simp add: matchesSearch_ascii Let_def)
  qed
  show "set (filter (\<lambda>r. (contains_ignoring_case (title r) searchTerm \<or>
                            contains_ignoring_case (description r) searchTerm) \<and>
                           (statusFilter = ''all'' \<or> status r = statusFilter)) requests) =
           {r \<in> set requests. contains_ignoring_case (title r) searchTerm \<or>
                               contains_ignoring_case (description r) searchTerm} \<inter>
           (if statusFilter = ''all'' then set requests
            else {r \<in> set requests. status r = statusFilter})"
    by auto
qed

theorem filteredRequests_ascii_witness:
  "list_all is_ascii (utf16 ''lApToP'') \<and>
   list_all is_ascii (utf16 ''Laptop Renewal'') \<and>
   list_all is_ascii (utf16 ''Two laptops for QA'') \<and>
   filteredRequests
     [laptop_request ''pending'' None,
      (laptop_request ''approved'' None)\<lparr>request_id := ''r2'', title := utf16 ''Desk'',
         description := utf16 ''Oak''\<rparr>,
      (laptop_request ''approved'' None)\<lparr>request_id := ''r3''\<rparr>]
     (utf16 ''lApToP'') ''approved'' =
   Some [(laptop_request ''approved'' None)\<lparr>request_id := ''r3''\<rparr>]"
proof -
  have t: "list_all is_ascii (utf16 ''lApToP'')"
    by (simp add: utf16_def is_ascii_def)
  have rs: "\<forall>r \<in> set [laptop_request ''pending'' None,
      (laptop_request ''approved'' None)\<lparr>request_id := ''r2'', title := utf16 ''Desk'',
         description := utf16 ''Oak''\<rparr>,
      (laptop_request ''approved'' None)\<lparr>request_id := ''r3''\<rparr>].
      list_all is_ascii (title r) \<and> list_all is_ascii (description r)"
    by (simp add: laptop_request_def utf16_def is_ascii_def)
  have e: "filteredRequests
     [laptop_request ''pending'' None,
      (laptop_request ''approved'' None)\<lparr>request_id := ''r2'', title := utf16 ''Desk'',
         description := utf16 ''Oak''\<rparr>,
      (laptop_request ''approved'' None)\<lparr>request_id := ''r3''\<rparr>]
     (utf16 ''lApToP'') ''approved'' =
   Some [(laptop_request ''approved'' None)\<lparr>request_id := ''r3''\<rparr>]"
    by (simp add: laptop_request_def utf16_def matchesSearch_def toLowerCase_def
        in_alphabet_def is_ascii_def lower_unit_def latin_capital_def greek_capital_def Let_def)
  show ?thesis
    using t rs e filteredRequests_ascii [OF t rs, of "''approved''"]
    by (simp add: utf16_def is_ascii_def)
qed

text \<open>
  The claim C4 does not hold for every text. The program compares the lower-cased title
  with the lower-cased term, and lower-casing depends on the place of a letter: the title
  of two Greek capitals alpha and sigma becomes alpha and final sigma, the term capital
  sigma becomes sigma. The title contains the term as it stands, and the filter drops the
  request.
\<close>

theorem final_sigma_title_filtered_out:
  "str_includes (title sigma_request) [931] \<and>
   contains_ignoring_case (title sigma_request) [931] \<and>
   toLowerCase (title sigma_request) = Some [945, 962] \<and>
   toLowerCase [931] = Some [963] \<and>
   filteredRequests [sigma_request] [931] ''all'' = Some []"
proof -
  have "title sigma_request = [913] @ [931] @ []"
    by (simp add: sigma_request_def)
  moreover have "list_all2 same_letter [931] [931]"
    by (simp add: same_letter_def)
  ultimately have c: "contains_ignoring_case (title sigma_request) [931]"
    unfolding contains_ignoring_case_def by blast
  have rest: "str_includes (title sigma_request) [931] \<and>
   toLowerCase (title sigma_request) = Some [945, 962] \<and>
   toLowerCase [931] = Some [963] \<and>
   filteredRequests [sigma_request] [931] ''all'' = Some []"
    by (simp add: sigma_request_def laptop_request_def utf16_def matchesSearch_def
        toLowerCase_def in_alphabet_def is_ascii_def greek_capital_def greek_small_def
        lower_unit_def final_sigma_def cased_def case_ignorable_def latin_capital_def
        latin_small_def Let_def)
  from c rest show ?thesis by simp
qed

section \<open>Dashboard\<close>

lemma count_three_statuses:
  "\<forall>r \<in> set requests. status r \<in> {''pending'', ''approved'', ''rejected''} \<Longrightarrow>
   length requests =
     length (filter (\<lambda>r. status r = ''pending'') requests) +
     length (filter (\<lambda>r. status r = ''approved'') requests) +
     length (filter (\<lambda>r. status r = ''rejected'') requests)"
  by (induction requests) auto

lemma nearest_even_le: "y \<le> of_int M \<Longrightarrow> nearest_even y \<le> M"
proof -
  assume a: "y \<le> of_int M"
  then have f: "\<lfloor>y\<rfloor> \<le> M" by (simp add: floor_le_iff)
  show ?thesis
  proof (cases "\<lfloor>y\<rfloor> = M")
    case True
    then have "of_int M \<le> y" by (metis of_int_floor_le)
    with a have "y = of_int M" by simp
    then show ?thesis by (simp add: nearest_even_def)
  next
    case False
    with f have "\<lfloor>y\<rfloor> + 1 \<le> M" by simp
    then show ?thesis by (simp add: nearest_even_def Let_def)
  qed
qed

lemma nearest_even_ge: "of_int M \<le> y \<Longrightarrow> M \<le> nearest_even y"
proof -
  assume "of_int M \<le> y"
  then have "M \<le> \<lfloor>y\<rfloor>" by (simp add: le_floor_iff)
  then show ?thesis by (simp add: nearest_even_def Let_def)
qed

lemma nearest_even_close: "\<bar>of_int (nearest_even y) - y\<bar> \<le> 1 / 2"
proof -
  have "of_int \<lfloor>y\<rfloor> \<le> y" "y < of_int \<lfloor>y\<rfloor> + 1" by linarith+
  then show ?thesis by (auto simp: nearest_even_def Let_def abs_le_iff)
qed

lemma bitlen_eqI: "2 ^ n \<le> y \<Longrightarrow> y < 2 ^ Suc n \<Longrightarrow> bitlen y = int n + 1"
proof (rule antisym)
  assume "y < 2 ^ Suc n"
  then show "bitlen y \<le> int n + 1"
    by (simp add: bitlen_le_iff_power nat_add_distrib)
next
  assume a: "2 ^ n \<le> y"
  have "nat (int n + 1) - 1 = n" by simp
  with a show "int n + 1 \<le> bitlen y"
    by (simp only: bitlen_ge_iff_power) simp
qed

lemma round_binary64_unfold:
  "round_binary64 x =
     of_int (nearest_even (x * 2 ^ min_exponent /
        2 ^ nat (bitlen \<lfloor>x * 2 ^ min_exponent\<rfloor> - int precision))) *
     2 ^ nat (bitlen \<lfloor>x * 2 ^ min_exponent\<rfloor> - int precision) / 2 ^ min_exponent"
  by (simp only: round_binary64_def Let_def)

lemma round_binary64_normal:
  assumes lo: "2 ^ (precision - 1) \<le> x * 2 ^ j" and hi: "x * 2 ^ j < 2 ^ precision"
    and j: "j \<le> min_exponent"
  shows "round_binary64 x = of_int (nearest_even (x * 2 ^ j)) / 2 ^ j"
proof -
  define d where "d = min_exponent - j"
  define p where "p = precision - 1"
  define X where "X = x * 2 ^ min_exponent"
  define k where "k = nat (bitlen \<lfloor>X\<rfloor> - int precision)"
  have p: "precision = Suc p" by (simp add: p_def precision_def)
  have split: "(2::rat) ^ min_exponent = 2 ^ j * 2 ^ d"
    using j by (simp add: d_def flip: power_add)
  have X: "X = (x * 2 ^ j) * 2 ^ d"
    by (simp only: X_def split mult.assoc)
  have "(2::rat) ^ p * 2 ^ d \<le> (x * 2 ^ j) * 2 ^ d"
    using lo by (simp add: p_def)
  moreover have "(2::rat) ^ p * 2 ^ d = of_int (2 ^ (p + d))"
    by (simp add: power_add)
  ultimately have "of_int (2 ^ (p + d)) \<le> X"
    by (simp only: X)
  then have l: "2 ^ (p + d) \<le> \<lfloor>X\<rfloor>" by (simp only: le_floor_iff)
  have "(x * 2 ^ j) * 2 ^ d < (2::rat) ^ Suc p * 2 ^ d"
    using hi by (simp add: p)
  moreover have "(2::rat) ^ Suc p * 2 ^ d = of_int (2 ^ Suc (p + d))"
    by (simp add: power_add)
  ultimately have "X < of_int (2 ^ Suc (p + d))"
    by (simp only: X)
  then have u: "\<lfloor>X\<rfloor> < 2 ^ Suc (p + d)" by (simp only: floor_less_iff)
  have "bitlen \<lfloor>X\<rfloor> = int (p + d) + 1"
    using l u by (rule bitlen_eqI)
  then have k: "k = d"
    by (simp add: k_def p)
  have q: "X / 2 ^ d = x * 2 ^ j" by (simp add: X)
  have "round_binary64 x = of_int (nearest_even (X / 2 ^ k)) * 2 ^ k / 2 ^ min_exponent"
    by (simp only: round_binary64_unfold X_def k_def)
  also have "\<dots> = of_int (nearest_even (x * 2 ^ j)) * 2 ^ d / (2 ^ j * 2 ^ d)"
    by (simp only: k q split)
  also have "\<dots> = of_int (nearest_even (x * 2 ^ j)) / 2 ^ j"
    by simp
  finally show ?thesis .
qed

lemma round_binary64_nonneg: "0 \<le> x \<Longrightarrow> 0 \<le> round_binary64 x"
proof -
  assume "0 \<le> x"
  then have "of_int 0 \<le> x * 2 ^ min_exponent /
      2 ^ nat (bitlen \<lfloor>x * 2 ^ min_exponent\<rfloor> - int precision)" by simp
  then have "0 \<le> nearest_even (x * 2 ^ min_exponent /
      2 ^ nat (bitlen \<lfloor>x * 2 ^ min_exponent\<rfloor> - int precision))"
    by (rule nearest_even_ge)
  then show ?thesis by (simp add: round_binary64_unfold)
qed

lemma round_binary64_le:
  assumes x: "x \<le> of_int n" and n: "n < 2 ^ precision"
  shows "round_binary64 x \<le> of_int n"
proof -
  define X where "X = x * 2 ^ min_exponent"
  define k where "k = nat (bitlen \<lfloor>X\<rfloor> - int precision)"
  have "X \<le> of_int n * 2 ^ min_exponent" using x by (simp add: X_def)
  then have "X \<le> of_int (n * 2 ^ min_exponent)" by simp
  then have "\<lfloor>X\<rfloor> \<le> n * 2 ^ min_exponent" by (simp only: floor_le_iff)
  also have "\<dots> < 2 ^ precision * 2 ^ min_exponent" using n by simp
  also have "\<dots> = 2 ^ (precision + min_exponent)" by (simp add: power_add)
  also have "\<dots> = 2 ^ nat (int (precision + min_exponent))" by simp
  finally have "\<lfloor>X\<rfloor> < 2 ^ nat (int (precision + min_exponent))" .
  then have "bitlen \<lfloor>X\<rfloor> \<le> int (precision + min_exponent)"
    by (simp only: bitlen_le_iff_power) simp
  then have k: "k \<le> min_exponent" by (simp add: k_def)
  define d where "d = min_exponent - k"
  have split: "(2::rat) ^ min_exponent = 2 ^ k * 2 ^ d"
    using k by (simp add: d_def flip: power_add)
  have "X = x * (2 ^ k * 2 ^ d)" by (simp only: X_def split)
  then have "X / 2 ^ k = x * 2 ^ d" by simp
  also have "\<dots> \<le> of_int n * 2 ^ d" using x by simp
  finally have "X / 2 ^ k \<le> of_int (n * 2 ^ d)" by simp
  then have "nearest_even (X / 2 ^ k) \<le> n * 2 ^ d" by (rule nearest_even_le)
  then have "(of_int (nearest_even (X / 2 ^ k)) :: rat) \<le> of_int (n * 2 ^ d)"
    by (simp only: of_int_le_iff)
  then have "(of_int (nearest_even (X / 2 ^ k)) :: rat) * 2 ^ k \<le> of_int n * 2 ^ d * 2 ^ k"
    by simp
  then have "of_int (nearest_even (X / 2 ^ k)) * 2 ^ k / (2 ^ k * 2 ^ d) \<le> (of_int n :: rat)"
    by (simp add: field_simps)
  then have "of_int (nearest_even (X / 2 ^ k)) * 2 ^ k / 2 ^ min_exponent \<le> (of_int n :: rat)"
    by (simp only: split)
  moreover have "round_binary64 x =
      of_int (nearest_even (X / 2 ^ k)) * 2 ^ k / 2 ^ min_exponent"
    by (simp only: round_binary64_unfold X_def k_def)
  ultimately show ?thesis by simp
qed

lemma round_binary64_error:
  assumes "0 \<le> x"
  shows "\<bar>round_binary64 x - x\<bar> \<le> x / 2 ^ precision + 1 / 2 ^ Suc min_exponent"
proof -
  define X where "X = x * 2 ^ min_exponent"
  define k where "k = nat (bitlen \<lfloor>X\<rfloor> - int precision)"
  define E :: rat where "E = 2 ^ min_exponent"
  define a :: rat where "a = of_int (nearest_even (X / 2 ^ k))"
  have E: "0 < E" by (simp add: E_def)
  have x: "x = X / E" using E by (simp add: X_def E_def)
  have r: "round_binary64 x = a * 2 ^ k / E"
    by (simp only: round_binary64_unfold X_def k_def E_def a_def)
  have alg: "a * c / E - X / E = (a - X / c) * c / E" if "c \<noteq> 0" for c :: rat
    using that E by (simp add: field_simps)
  have "round_binary64 x - x = a * 2 ^ k / E - X / E"
    by (simp only: r) (simp only: x)
  also have "\<dots> = (a - X / 2 ^ k) * 2 ^ k / E"
    by (rule alg) simp
  finally have "\<bar>round_binary64 x - x\<bar> = \<bar>a - X / 2 ^ k\<bar> * 2 ^ k / E"
    using E by (simp add: abs_mult)
  also have "\<dots> \<le> (1 / 2) * 2 ^ k / E"
    using nearest_even_close [of "X / 2 ^ k"] E unfolding a_def
    by (intro divide_right_mono mult_right_mono) simp_all
  finally have e: "\<bar>round_binary64 x - x\<bar> \<le> 2 ^ k / (2 * E)" by simp
  have E2: "2 ^ Suc min_exponent = 2 * E" by (simp add: E_def)
  show ?thesis
  proof (cases "k = 0")
    case True
    have "0 \<le> x / 2 ^ precision" using assms by simp
    with e True show ?thesis unfolding E2 by simp
  next
    case False
    then have "int k + int precision \<le> bitlen \<lfloor>X\<rfloor>" by (simp add: k_def)
    then have "int (k + precision) \<le> bitlen \<lfloor>X\<rfloor>" by simp
    then have "2 ^ (nat (int (k + precision)) - 1) \<le> \<lfloor>X\<rfloor>"
      by (simp only: bitlen_ge_iff_power) (simp add: precision_def)
    moreover have "nat (int (k + precision)) - 1 = k + (precision - 1)"
      by (simp add: precision_def)
    ultimately have "2 ^ (k + (precision - 1)) \<le> \<lfloor>X\<rfloor>" by simp
    then have "of_int (2 ^ (k + (precision - 1))) \<le> X" by (simp only: le_floor_iff)
    then have "(2::rat) ^ k * 2 ^ (precision - 1) \<le> X" by (simp add: power_add)
    then have "((2::rat) ^ k * 2 ^ (precision - 1)) * 2 \<le> X * 2" by simp
    also have "((2::rat) ^ k * 2 ^ (precision - 1)) * 2 = 2 ^ k * 2 ^ Suc (precision - 1)"
      by simp
    also have "Suc (precision - 1) = precision" by (simp add: precision_def)
    finally have "(2::rat) ^ k * 2 ^ precision \<le> X * 2" .
    then have "(2::rat) ^ k / (2 * E) \<le> x / 2 ^ precision"
      using E unfolding x by (simp add: field_simps)
    moreover have "0 \<le> 1 / (2 * E)" using E by simp
    ultimately show ?thesis using e unfolding E2 by linarith
  qed
qed

lemma floor_rat_numeral: "\<lfloor>(numeral a :: rat) / numeral b\<rfloor> = numeral a div numeral b"
  using floor_divide_of_int_eq [of "numeral a" "numeral b", where ?'a = rat] by simp

lemma to_double_bounded:
  assumes "0 \<le> x" and "x \<le> of_int n" and "n < 2 ^ precision"
  shows "to_double x = Some (round_binary64 x)" and "0 \<le> round_binary64 x"
    and "round_binary64 x \<le> of_int n"
proof -
  show le: "round_binary64 x \<le> of_int n"
    using assms(2,3) by (rule round_binary64_le)
  show "0 \<le> round_binary64 x"
    using assms(1) by (rule round_binary64_nonneg)
  have "(of_int n :: rat) < of_int (2 ^ precision)"
    using assms(3) by (simp only: of_int_less_iff)
  then have "(of_int n :: rat) < 2 ^ precision" by simp
  also have "(2::rat) ^ precision \<le> 2 ^ max_exponent"
    by (rule power_increasing) (simp_all add: precision_def max_exponent_def)
  finally have "(of_int n :: rat) < 2 ^ max_exponent" .
  with le have "round_binary64 x < 2 ^ max_exponent" by (rule le_less_trans)
  with assms(1) show "to_double x = Some (round_binary64 x)"
    by (simp add: to_double_def)
qed

lemma small_terms:
  "(1::rat) / 2 ^ precision \<le> 1 / 1024" "(1::rat) / 2 ^ Suc min_exponent \<le> 1 / 1024"
proof -
  have "(2::rat) ^ 10 \<le> 2 ^ precision"
    by (rule power_increasing) (simp_all add: precision_def)
  then show "(1::rat) / 2 ^ precision \<le> 1 / 1024" by (simp add: field_simps)
  have "(2::rat) ^ 10 \<le> 2 ^ Suc min_exponent"
    by (rule power_increasing) (simp_all add: min_exponent_def)
  then show "(1::rat) / 2 ^ Suc min_exponent \<le> 1 / 1024" by (simp add: field_simps)
qed

lemma Math_round_close:
  assumes "\<bar>p - e\<bar> < 1"
  shows "\<bar>Math_round p - Math_round e\<bar> \<le> 1"
proof -
  have "p + 1 / 2 < (e + 1 / 2) + 1" "e + 1 / 2 < (p + 1 / 2) + 1"
    using assms by linarith+
  then have "\<lfloor>p + 1 / 2\<rfloor> \<le> \<lfloor>e + 1 / 2\<rfloor> + 1" "\<lfloor>e + 1 / 2\<rfloor> \<le> \<lfloor>p + 1 / 2\<rfloor> + 1"
    by linarith+
  then show ?thesis by (simp add: Math_round_def)
qed

lemma to_double_normal:
  assumes lo: "2 ^ 52 \<le> x * 2 ^ j" and hi: "x * 2 ^ j < 2 ^ 53" and j: "j \<le> 1074"
  shows "to_double x = Some (of_int (nearest_even (x * 2 ^ j)) / 2 ^ j)"
proof -
  have r: "round_binary64 x = of_int (nearest_even (x * 2 ^ j)) / 2 ^ j"
    using assms by (intro round_binary64_normal) (simp_all add: precision_def min_exponent_def)
  have "(0::rat) < 2 ^ j" by simp
  moreover have "0 \<le> x * 2 ^ j" using lo by simp
  ultimately have x0: "0 \<le> x" by (simp only: zero_le_mult_iff) linarith
  have "x * 2 ^ j \<le> of_int (2 ^ 53)" using hi by simp
  then have "nearest_even (x * 2 ^ j) \<le> 2 ^ 53" by (rule nearest_even_le)
  then have m: "(of_int (nearest_even (x * 2 ^ j)) :: rat) \<le> of_int (2 ^ 53)"
    by (simp only: of_int_le_iff)
  have "(1::rat) \<le> 2 ^ j" by simp
  then have "(of_int (2 ^ 53) :: rat) * 1 \<le> of_int (2 ^ 53) * 2 ^ j"
    by (intro mult_left_mono) simp_all
  with m have "(of_int (nearest_even (x * 2 ^ j)) :: rat) \<le> of_int (2 ^ 53) * 2 ^ j"
    by linarith
  then have "round_binary64 x \<le> of_int (2 ^ 53)"
    unfolding r by (simp add: field_simps)
  then have "round_binary64 x \<le> 2 ^ 53" by simp
  also have "(2::rat) ^ 53 < 2 ^ max_exponent"
    by (rule power_strict_increasing) (simp_all add: max_exponent_def)
  finally have "\<not> 2 ^ max_exponent \<le> round_binary64 x" by simp
  with x0 show ?thesis by (simp add: to_double_def r)
qed

lemma approvalRate_total:
  assumes t: "total s \<noteq> 0" and a: "approved s \<le> total s"
  shows "\<exists>q p. js_divide (of_nat (approved s)) (of_nat (total s)) = Some q \<and>
           js_multiply q 100 = Some p \<and>
           approvalRate s = Some (Math_round p) \<and> 0 \<le> Math_round p \<and> Math_round p \<le> 100 \<and>
           \<bar>Math_round p - Math_round (100 * of_nat (approved s) / of_nat (total s))\<bar> \<le> 1"
proof -
  define x :: rat where "x = of_nat (approved s) / of_nat (total s)"
  define q where "q = round_binary64 x"
  define p where "p = round_binary64 (q * 100)"
  define u :: rat where "u = 1 / 2 ^ precision"
  define v :: rat where "v = 1 / 2 ^ Suc min_exponent"
  have x0: "0 \<le> x" by (simp add: x_def)
  have x1: "x \<le> of_int 1" using t a by (simp add: x_def)
  have one: "(1::int) < 2 ^ precision" by (simp add: precision_def)
  have hundred: "(100::int) < 2 ^ precision" by (simp add: precision_def)
  have dq: "to_double x = Some q" and q0: "0 \<le> q" and q1: "q \<le> 1"
    using to_double_bounded [OF x0 x1 one] by (simp_all add: q_def)
  have y0: "0 \<le> q * 100" using q0 by simp
  have y1: "q * 100 \<le> of_int 100" using q1 by simp
  have dp: "to_double (q * 100) = Some p" and p0: "0 \<le> p" and p1: "p \<le> 100"
    using to_double_bounded [OF y0 y1 hundred] by (simp_all add: p_def)
  have u: "0 \<le> u" "u \<le> 1 / 1024" and v: "0 \<le> v" "v \<le> 1 / 1024"
    using small_terms by (simp_all add: u_def v_def)
  have "\<bar>q - x\<bar> \<le> x / 2 ^ precision + 1 / 2 ^ Suc min_exponent"
    unfolding q_def using x0 by (rule round_binary64_error)
  then have "\<bar>q - x\<bar> \<le> x * u + v" by (simp add: u_def v_def)
  moreover have "x * u \<le> 1 * u" using x1 u(1) by (intro mult_right_mono) simp_all
  ultimately have eq: "\<bar>q - x\<bar> \<le> u + v" by linarith
  have "\<bar>p - q * 100\<bar> \<le> q * 100 / 2 ^ precision + 1 / 2 ^ Suc min_exponent"
    unfolding p_def using y0 by (rule round_binary64_error)
  then have "\<bar>p - q * 100\<bar> \<le> (q * 100) * u + v" by (simp add: u_def v_def)
  moreover have "(q * 100) * u \<le> 100 * u" using y1 u(1) by (intro mult_right_mono) simp_all
  ultimately have ep: "\<bar>p - q * 100\<bar> \<le> 100 * u + v" by linarith
  define A where "A = \<bar>p - 100 * x\<bar>"
  define B where "B = \<bar>p - q * 100\<bar>"
  define C where "C = \<bar>q - x\<bar>"
  have "p - 100 * x = (p - q * 100) + 100 * (q - x)" by simp
  then have "A \<le> B + \<bar>100 * (q - x)\<bar>"
    unfolding A_def B_def by (simp only: abs_triangle_ineq)
  also have "\<bar>100 * (q - x)\<bar> = \<bar>100\<bar> * C" unfolding C_def by (rule abs_mult)
  also have "\<bar>100 :: rat\<bar> = 100" by simp
  finally have tri: "A \<le> B + 100 * C" .
  have "C \<le> u + v" "B \<le> 100 * u + v"
    using eq ep by (simp_all add: B_def C_def)
  with tri u v have "A < 1" by linarith
  then have "\<bar>p - 100 * x\<bar> < 1" by (simp add: A_def)
  then have close: "\<bar>Math_round p - Math_round (100 * x)\<bar> \<le> 1" by (rule Math_round_close)
  have lo: "0 \<le> Math_round p" using p0 by (simp add: Math_round_def)
  have "p + 1 / 2 < 101" using p1 by simp
  then have "p + 1 / 2 < of_int 101" by simp
  then have "\<lfloor>p + 1 / 2\<rfloor> < 101" by (simp only: floor_less_iff)
  then have hi: "Math_round p \<le> 100" by (simp add: Math_round_def)
  have d: "js_divide (of_nat (approved s)) (of_nat (total s)) = Some q"
    using t dq by (simp add: js_divide_def x_def)
  have m: "js_multiply q 100 = Some p"
    using dp by (simp add: js_multiply_def)
  have r: "approvalRate s = Some (Math_round p)"
    using t d m by (simp add: approvalRate_def)
  have "100 * x = 100 * of_nat (approved s) / of_nat (total s)" by (simp add: x_def)
  with d m r lo hi close show ?thesis by auto
qed

text \<open>
  Claim C10, as the code has it. When every fetched request has one of the statuses
  \<^verbatim>\<open>pending\<close>, \<^verbatim>\<open>approved\<close>, \<^verbatim>\<open>rejected\<close>, the total is the sum of the three counts.
  The approval rate is 0 when the total is zero, so on the empty list, where the division
  is not evaluated. When the total is not zero the division and the multiplication by 100
  both yield a double and the rate is \<^verbatim>\<open>Math.round\<close> of the product: an integer from 0
  to 100 that is the exactly rounded percentage or next to it.
\<close>

theorem dashboard_rate:
  assumes "\<forall>r \<in> set requests. status r \<in> {''pending'', ''approved'', ''rejected''}"
  shows "total (Dashboard_stats requests) =
           pending (Dashboard_stats requests) + approved (Dashboard_stats requests) +
           rejected (Dashboard_stats requests) \<and>
         (total (Dashboard_stats requests) = 0 \<longrightarrow>
            approvalRate (Dashboard_stats requests) = Some 0) \<and>
         (requests = [] \<longrightarrow> approvalRate (Dashboard_stats requests) = Some 0) \<and>
         (total (Dashboard_stats requests) \<noteq> 0 \<longrightarrow>
            (\<exists>q p. js_divide (of_nat (approved (Dashboard_stats requests)))
                             (of_nat (total (Dashboard_stats requests))) = Some q \<and>
                   js_multiply q 100 = Some p \<and>
                   approvalRate (Dashboard_stats requests) = Some (Math_round p) \<and>
                   0 \<le> Math_round p \<and> Math_round p \<le> 100 \<and>
                   \<bar>Math_round p -
                     Math_round (100 * of_nat (approved (Dashboard_stats requests)) /
                                 of_nat (total (Dashboard_stats requests)))\<bar> \<le> 1))"
proof (intro conjI impI)
  show "total (Dashboard_stats requests) =
           pending (Dashboard_stats requests) + approved (Dashboard_stats requests) +
           rejected (Dashboard_stats requests)"
    using count_three_statuses [OF assms] by (simp add: Dashboard_stats_def)
  show "approvalRate (Dashboard_stats requests) = Some 0"
    if "total (Dashboard_stats requests) = 0"
    using that by (simp add: approvalRate_def)
  show "approvalRate (Dashboard_stats requests) = Some 0" if "requests = []"
    using that by (simp add: approvalRate_def Dashboard_stats_def)
  have "approved (Dashboard_stats requests) \<le> total (Dashboard_stats requests)"
    by (simp add: Dashboard_stats_def)
  then show "\<exists>q p. js_divide (of_nat (approved (Dashboard_stats requests)))
                             (of_nat (total (Dashboard_stats requests))) = Some q \<and>
                   js_multiply q 100 = Some p \<and>
                   approvalRate (Dashboard_stats requests) = Some (Math_round p) \<and>
                   0 \<le> Math_round p \<and> Math_round p \<le> 100 \<and>
                   \<bar>Math_round p -
                     Math_round (100 * of_nat (approved (Dashboard_stats requests)) /
                                 of_nat (total (Dashboard_stats requests)))\<bar> \<le> 1"
    if "total (Dashboard_stats requests) \<noteq> 0"
    using that by (intro approvalRate_total)
qed

lemma to_double_one_third: "to_double (1 / 3) = Some (6004799503160661 / 18014398509481984)"
  using to_double_normal [of "1 / 3" 54]
  by (simp add: nearest_even_def Let_def floor_rat_numeral)

lemma to_double_23_40: "to_double (23 / 40) = Some (2589569785738035 / 4503599627370496)"
  using to_double_normal [of "23 / 40" 53]
  by (simp add: nearest_even_def Let_def floor_rat_numeral)

lemma to_double_one_third_times_100:
  "to_double (6004799503160661 / 18014398509481984 * 100) =
     Some (2345624805922133 / 70368744177664)"
  using to_double_normal [of "6004799503160661 / 18014398509481984 * 100" 47]
  by (simp add: nearest_even_def Let_def floor_rat_numeral)

lemma to_double_23_40_times_100:
  "to_double (2589569785738035 / 4503599627370496 * 100) =
     Some (8092405580431359 / 140737488355328)"
  using to_double_normal [of "2589569785738035 / 4503599627370496 * 100" 47]
  by (simp add: nearest_even_def Let_def floor_rat_numeral)

lemma stats_forty:
  "Dashboard_stats forty_requests = \<lparr>total = 40, pending = 17, approved = 23, rejected = 0\<rparr>"
  by (simp add: Dashboard_stats_def forty_requests_def laptop_request_def)

theorem dashboard_rate_witness:
  "map status three_requests = [''pending'', ''approved'', ''rejected''] \<and>
   Dashboard_stats three_requests = \<lparr>total = 3, pending = 1, approved = 1, rejected = 1\<rparr> \<and>
   approvalRate (Dashboard_stats three_requests) = Some 33 \<and>
   approvalRate (Dashboard_stats []) = Some 0"
proof -
  have h: "\<forall>r \<in> set three_requests. status r \<in> {''pending'', ''approved'', ''rejected''}"
    by (simp add: three_requests_def laptop_request_def)
  have e: "\<forall>r \<in> set ([] :: PurchaseRequest list).
             status r \<in> {''pending'', ''approved'', ''rejected''}"
    by simp
  have st: "Dashboard_stats three_requests =
      \<lparr>total = 3, pending = 1, approved = 1, rejected = 1\<rparr>"
    by (simp add: Dashboard_stats_def three_requests_def laptop_request_def)
  have "js_divide (of_nat 1) (of_nat 3) = Some (6004799503160661 / 18014398509481984)"
    using to_double_one_third by (simp add: js_divide_def)
  moreover have "js_multiply (6004799503160661 / 18014398509481984) 100 =
      Some (2345624805922133 / 70368744177664)"
    using to_double_one_third_times_100 by (simp only: js_multiply_def)
  moreover have "Math_round (2345624805922133 / 70368744177664) = 33"
    by (simp add: Math_round_def floor_rat_numeral)
  ultimately have r: "approvalRate (Dashboard_stats three_requests) = Some 33"
    by (simp only: st approvalRate_def) simp
  have m: "map status three_requests = [''pending'', ''approved'', ''rejected'']"
    by (simp add: three_requests_def laptop_request_def)
  show ?thesis
    using m st r dashboard_rate [OF h] dashboard_rate [OF e]
    by simp
qed

text \<open>
  The rate of claim C10 is not always the rounded percentage. For 23 approved requests of
  40 the percentage is 57.5, which rounds to 58; the double nearest to 23/40 is below it,
  the product is the double just below 57.5, and the dashboard shows 57.
\<close>

theorem twenty_three_of_forty:
  "map status forty_requests =
     replicate 23 ''approved'' @ replicate 17 ''pending'' \<and>
   approvalRate (Dashboard_stats forty_requests) = Some 57 \<and>
   Math_round (23 / 40 * 100) = 58"
proof -
  have "js_divide (of_nat 23) (of_nat 40) = Some (2589569785738035 / 4503599627370496)"
    using to_double_23_40 by (simp add: js_divide_def)
  moreover have "js_multiply (2589569785738035 / 4503599627370496) 100 =
      Some (8092405580431359 / 140737488355328)"
    using to_double_23_40_times_100 by (simp only: js_multiply_def)
  moreover have "Math_round (8092405580431359 / 140737488355328) = 57"
    by (simp add: Math_round_def floor_rat_numeral)
  ultimately have "approvalRate (Dashboard_stats forty_requests) = Some 57"
    by (simp only: stats_forty approvalRate_def) simp
  moreover have "Math_round (23 / 40 * 100) = 58"
    by (simp add: Math_round_def floor_rat_numeral)
  moreover have "map status forty_requests =
     replicate 23 ''approved'' @ replicate 17 ''pending''"
    by (simp add: forty_requests_def laptop_request_def)
  ultimately show ?thesis by simp
qed

section \<open>API client\<close>

lemma apiRequest_world:
  "snd (apiRequest net endpoint options w) =
     w\<lparr>sent := sent w @ [build_request w endpoint options]\<rparr>"
  by (simp add: apiRequest_def Let_def split: fetch_result.splits sum.splits option.splits)

lemma apiRequest_success:
  assumes "net (sent w) (build_request w endpoint options) = Response r"
    and "ok r" and "json_body r = Some j"
  shows "fst (apiRequest net endpoint options w) = Inr j"
  using assms by (simp add: apiRequest_def Let_def)

lemma apiRequest_unparseable_success:
  assumes "net (sent w) (build_request w endpoint options) = Response r"
    and "ok r" and "json_body r = None"
  shows "\<exists>e. fst (apiRequest net endpoint options w) = Inl e"
  using assms by (simp add: apiRequest_def Let_def)

lemma apiRequest_failure_throws:
  assumes "net (sent w) (build_request w endpoint options) = Response r" and "\<not> ok r"
  shows "\<exists>e. fst (apiRequest net endpoint options w) = Inl e"
  using assms by (simp add: apiRequest_def Let_def split: sum.splits)

lemma apiRequest_server_message:
  assumes "net (sent w) (build_request w endpoint options) = Response r" and "\<not> ok r"
    and "json_body r = Some (JObj kvs)" and "map_of kvs ''message'' = Some (JStr m)"
    and "m \<noteq> []"
  shows "fst (apiRequest net endpoint options w) = Inl (Error m)"
  using assms by (simp add: apiRequest_def Let_def truthy_def template_string_def)

lemma apiRequest_status_message:
  assumes net: "net (sent w) (build_request w endpoint options) = Response r"
    and bad: "\<not> ok r"
    and body: "json_body r = None \<or>
         (\<exists>j v. json_body r = Some j \<and> getProp j ''message'' = Inr v \<and> \<not> truthy v)"
  shows "fst (apiRequest net endpoint options w) =
           Inl (Error (''API Error: '' @ show_nat (http_status r)))"
proof (cases "json_body r")
  case None
  with net bad show ?thesis
    by (simp add: apiRequest_def Let_def truthy_def)
next
  case (Some j)
  with body obtain v where "getProp j ''message'' = Inr v" and "\<not> truthy v"
    by auto
  with net bad Some show ?thesis
    by (simp add: apiRequest_def Let_def)
qed

text \<open>
  Claim C6. For a response with a non-success status \<open>apiRequest\<close> is to throw an error
  with the message of the server when the body has one, and with
  \<^verbatim>\<open>API Error: <status>\<close> otherwise. The lemmas above establish this for a body that is not
  a JSON document and for every JSON document except \<^verbatim>\<open>null\<close>. The rejection handler
  of \<^verbatim>\<open>response.json()\<close> replaces only a body that does not parse; the body
  \<^verbatim>\<open>null\<close> parses, and reading its \<^verbatim>\<open>message\<close> raises a TypeError in place of the
  status message: for status 500 the error is not \<^verbatim>\<open>API Error: 500\<close>.
\<close>

theorem apiRequest_null_error_body:
  "fst (apiRequest (always_respond null_error_response) ''/requests/'' no_options initial_world) =
     Inl (TypeError (''Cannot read properties of null (reading '' @ [CHR 0x27] @ ''message'' @
                     [CHR 0x27] @ '')'')) \<and>
   fst (apiRequest (always_respond null_error_response) ''/requests/'' no_options initial_world) \<noteq>
     Inl (Error ''API Error: 500'')"
  by (simp add: apiRequest_def always_respond_def null_error_response_def ok_def Let_def)

lemma Authorization_entry:
  "map_of (req_headers (build_request w endpoint options)) ''Authorization'' =
     (case getAuthToken w of
        None \<Rightarrow> map_of (spread_headers (opt_headers options)) ''Authorization''
      | Some t \<Rightarrow>
          if auth_enabled options \<and> t \<noteq> [] then Some (''Bearer '' @ t)
          else map_of (spread_headers (opt_headers options)) ''Authorization'')"
  by (simp add: build_request_def with_content_type_def with_authorization_def update_conv'
      split: option.splits)

lemma has_header_update:
  "has_header name (AList.update k v headers) \<longleftrightarrow>
     byte_lowercase k = byte_lowercase name \<or> has_header name headers"
  by (induction headers) (auto simp: has_header_def)

lemma has_Authorization:
  "has_header ''Authorization'' (req_headers (build_request w endpoint options)) \<longleftrightarrow>
     (auth_enabled options \<and> truthy_string (getAuthToken w)) \<or>
     has_header ''Authorization'' (spread_headers (opt_headers options))"
proof -
  have other: "byte_lowercase ''Content-Type'' \<noteq> byte_lowercase ''Authorization''"
    by (simp add: byte_lowercase_def upper_case_letters_def lower_case_letters_def)
  show ?thesis
    using other
    by (auto simp: build_request_def with_content_type_def with_authorization_def
        has_header_update truthy_string_def split: option.splits)
qed

text \<open>
  Claim C9, as the code has it, for the calls whose own headers bring no
  \<^verbatim>\<open>Authorization\<close> entry, among them every call that passes no headers. Such a call
  hands exactly one request to \<^verbatim>\<open>fetch\<close>, whether or not a token is stored; the request
  has an \<^verbatim>\<open>Authorization\<close> header exactly when auth is enabled and a token is stored;
  and with auth enabled and no token it goes out without one. A stored token is one that
  the test \<^verbatim>\<open>auth && token\<close> accepts, a string that is not empty.
\<close>

theorem authorization_header:
  assumes "\<not> has_header ''Authorization'' (spread_headers (opt_headers options))"
  shows "sent (snd (apiRequest net endpoint options w)) =
           sent w @ [build_request w endpoint options] \<and>
         (has_header ''Authorization'' (req_headers (build_request w endpoint options)) \<longleftrightarrow>
            auth_enabled options \<and> truthy_string (getAuthToken w)) \<and>
         (auth_enabled options \<and> getAuthToken w = None \<longrightarrow>
            \<not> has_header ''Authorization'' (req_headers (build_request w endpoint options)))"
proof (intro conjI impI)
  show "sent (snd (apiRequest net endpoint options w)) =
          sent w @ [build_request w endpoint options]"
    by (simp add: apiRequest_world)
  show iff: "has_header ''Authorization'' (req_headers (build_request w endpoint options)) \<longleftrightarrow>
            auth_enabled options \<and> truthy_string (getAuthToken w)"
    using assms by (simp add: has_Authorization)
  assume "auth_enabled options \<and> getAuthToken w = None"
  then show "\<not> has_header ''Authorization'' (req_headers (build_request w endpoint options))"
    by (simp add: iff truthy_string_def)
qed

theorem authorization_header_witness:
  "\<not> has_header ''Authorization'' (spread_headers (opt_headers no_options)) \<and>
   auth_enabled no_options \<and> getAuthToken initial_world = None \<and>
   map req_headers (sent (snd (apiRequest (always_respond created_response) ''/requests/''
      no_options initial_world))) = [[(''Content-Type'', ''application/json'')]] \<and>
   getAuthToken (setAuthToken ''abc123'' initial_world) = Some ''abc123'' \<and>
   map req_headers (sent (snd (apiRequest (always_respond created_response) ''/requests/''
      no_options (setAuthToken ''abc123'' initial_world)))) =
     [[(''Authorization'', ''Bearer abc123''), (''Content-Type'', ''application/json'')]]"
proof -
  have h: "\<not> has_header ''Authorization'' (spread_headers (opt_headers no_options))"
    by (simp add: no_options_def has_header_def)
  show ?thesis
    using h
      authorization_header [OF h, of "always_respond created_response" "''/requests/''"
        initial_world]
      authorization_header [OF h, of "always_respond created_response" "''/requests/''"
        "setAuthToken ''abc123'' initial_world"]
    by (simp add: no_options_def auth_enabled_def getAuthToken_def setAuthToken_def
        initial_world_def build_request_def with_authorization_def with_content_type_def)
qed

text \<open>
  The equivalence of claim C9 does not hold for every call: with auth disabled and no token
  stored, a call whose options carry an \<^verbatim>\<open>Authorization\<close> header sends that header.
\<close>

theorem caller_authorization_header_kept:
  "auth_enabled basic_auth_options = False \<and>
   getAuthToken initial_world = None \<and>
   map req_headers (sent (snd (apiRequest (always_respond created_response) ''/requests/''
     basic_auth_options initial_world))) =
     [[(''Authorization'', ''Basic c3RhZmY6cHc=''), (''Content-Type'', ''application/json'')]]"
  by (simp add: basic_auth_options_def auth_enabled_def getAuthToken_def initial_world_def
      apiRequest_world build_request_def with_authorization_def with_content_type_def)

text \<open>
  Claim C5. \<open>requestsAPI_list\<close> returns the response itself when the list endpoint
  answers with an array, and the \<^verbatim>\<open>results\<close> field when it answers with an envelope
  whose \<^verbatim>\<open>results\<close> field is an array.
\<close>

theorem requestsAPI_list_normalises:
  "(net (sent w) (build_request w ''/requests/'' no_options) = Response r \<and> ok r \<and>
      json_body r = Some (JArr xs) \<longrightarrow>
      fst (requestsAPI_list net w) = Inr (JArr xs)) \<and>
   (net (sent w) (build_request w ''/requests/'' no_options) = Response r \<and> ok r \<and>
      json_body r = Some (JObj kvs) \<and> map_of kvs ''results'' = Some (JArr xs) \<longrightarrow>
      fst (requestsAPI_list net w) = Inr (JArr xs))"
proof (intro conjI impI)
  assume a: "net (sent w) (build_request w ''/requests/'' no_options) = Response r \<and> ok r \<and>
      json_body r = Some (JArr xs)"
  then have "fst (apiRequest net ''/requests/'' no_options w) = Inr (JArr xs)"
    by (simp add: apiRequest_success)
  then obtain w' where "apiRequest net ''/requests/'' no_options w = (Inr (JArr xs), w')"
    by (cases "apiRequest net ''/requests/'' no_options w") simp
  then show "fst (requestsAPI_list net w) = Inr (JArr xs)"
    by (simp add: requestsAPI_list_def)
next
  assume a: "net (sent w) (build_request w ''/requests/'' no_options) = Response r \<and> ok r \<and>
      json_body r = Some (JObj kvs) \<and> map_of kvs ''results'' = Some (JArr xs)"
  then have "fst (apiRequest net ''/requests/'' no_options w) = Inr (JObj kvs)"
    by (simp add: apiRequest_success)
  then obtain w' where "apiRequest net ''/requests/'' no_options w = (Inr (JObj kvs), w')"
    by (cases "apiRequest net ''/requests/'' no_options w") simp
  with a show "fst (requestsAPI_list net w) = Inr (JArr xs)"
    by (simp add: requestsAPI_list_def)
qed

theorem requestsAPI_list_normalises_witness:
  "ok raw_list_response \<and> ok paginated_list_response \<and>
   fst (requestsAPI_list (always_respond raw_list_response) initial_world) =
     Inr (JArr [JObj [(''id'', JStr ''r1'')]]) \<and>
   fst (requestsAPI_list (always_respond paginated_list_response) initial_world) =
     Inr (JArr [JObj [(''id'', JStr ''r1'')]])"
  using requestsAPI_list_normalises [of "always_respond raw_list_response" initial_world
          raw_list_response "[JObj [(''id'', JStr ''r1'')]]"]
        requestsAPI_list_normalises [of "always_respond paginated_list_response" initial_world
          paginated_list_response "[JObj [(''id'', JStr ''r1'')]]"
          "[(''count'', JNum 1), (''results'', JArr [JObj [(''id'', JStr ''r1'')]])]"]
  by (simp add: always_respond_def raw_list_response_def paginated_list_response_def ok_def)

lemma authAPI_login_stores_token:
  assumes "net (sent w) (build_request w ''/auth/login/'' (login_options em pw)) = Response r"
    and "ok r" and "json_body r = Some (JObj kvs)"
    and "map_of kvs ''token'' = Some (JStr t)" and "t \<noteq> []"
  shows "authAPI_login net em pw w =
           (Inr (JObj kvs),
            setAuthToken t (w\<lparr>sent := sent w @
               [build_request w ''/auth/login/'' (login_options em pw)]\<rparr>))"
proof -
  have "fst (apiRequest net ''/auth/login/'' (login_options em pw) w) = Inr (JObj kvs)"
    using assms(1-3) apiRequest_success [of net w "''/auth/login/''" "login_options em pw" r]
    by blast
  then have "apiRequest net ''/auth/login/'' (login_options em pw) w =
      (Inr (JObj kvs), w\<lparr>sent := sent w @
               [build_request w ''/auth/login/'' (login_options em pw)]\<rparr>)"
    using apiRequest_world [of net "''/auth/login/''" "login_options em pw" w]
    by (cases "apiRequest net ''/auth/login/'' (login_options em pw) w") simp
  with assms(4,5) show ?thesis
    by (simp add: authAPI_login_def truthy_def template_string_def)
qed

lemma authAPI_login_failure:
  assumes "net (sent w) (build_request w ''/auth/login/'' (login_options em pw)) = Response r"
    and "\<not> ok r"
  shows "\<exists>e. authAPI_login net em pw w =
           (Inl e, w\<lparr>sent := sent w @
               [build_request w ''/auth/login/'' (login_options em pw)]\<rparr>) \<and>
           fst (apiRequest net ''/auth/login/'' (login_options em pw) w) = Inl e"
proof -
  obtain e where e: "fst (apiRequest net ''/auth/login/'' (login_options em pw) w) = Inl e"
    using assms apiRequest_failure_throws [of net w "''/auth/login/''" "login_options em pw" r]
    by blast
  then have "apiRequest net ''/auth/login/'' (login_options em pw) w =
      (Inl e, w\<lparr>sent := sent w @
               [build_request w ''/auth/login/'' (login_options em pw)]\<rparr>)"
    using apiRequest_world [of net "''/auth/login/''" "login_options em pw" w]
    by (cases "apiRequest net ''/auth/login/'' (login_options em pw) w") simp
  with e show ?thesis
    by (simp add: authAPI_login_def)
qed

text \<open>
  Claim C7. When the server answers the login with success and a token field, a non-empty
  string, login returns the response and the token is stored; from then on, as long as the
  storage is not changed, every call with auth enabled goes out with the header
  \<^verbatim>\<open>Authorization: Bearer <token>\<close>, whatever headers the caller brings. When the server
  answers with a non-success status, login throws, the storage (and so the stored token, or
  its absence) is unchanged, and the error carries the message of the server when the body
  has a non-empty one.
\<close>

theorem login_token:
  "(net (sent w) (build_request w ''/auth/login/'' (login_options em pw)) = Response r \<and>
      ok r \<and> json_body r = Some (JObj kvs) \<and> map_of kvs ''token'' = Some (JStr t) \<and>
      t \<noteq> [] \<longrightarrow>
      fst (authAPI_login net em pw w) = Inr (JObj kvs) \<and>
      getAuthToken (snd (authAPI_login net em pw w)) = Some t \<and>
      (\<forall>net' endpoint options w'.
         storage w' = storage (snd (authAPI_login net em pw w)) \<and> auth_enabled options \<longrightarrow>
         sent (snd (apiRequest net' endpoint options w')) =
           sent w' @ [build_request w' endpoint options] \<and>
         map_of (req_headers (build_request w' endpoint options)) ''Authorization'' =
           Some (''Bearer '' @ t))) \<and>
   (net (sent w) (build_request w ''/auth/login/'' (login_options em pw)) = Response r \<and>
      \<not> ok r \<longrightarrow>
      (\<exists>e. fst (authAPI_login net em pw w) = Inl e) \<and>
      storage (snd (authAPI_login net em pw w)) = storage w \<and>
      (\<forall>fields m. json_body r = Some (JObj fields) \<and>
           map_of fields ''message'' = Some (JStr m) \<and> m \<noteq> [] \<longrightarrow>
           fst (authAPI_login net em pw w) = Inl (Error m)))"
proof (intro conjI impI allI)
  assume a: "net (sent w) (build_request w ''/auth/login/'' (login_options em pw)) = Response r \<and>
      ok r \<and> json_body r = Some (JObj kvs) \<and> map_of kvs ''token'' = Some (JStr t) \<and> t \<noteq> []"
  then have login: "authAPI_login net em pw w =
           (Inr (JObj kvs),
            setAuthToken t (w\<lparr>sent := sent w @
               [build_request w ''/auth/login/'' (login_options em pw)]\<rparr>))"
    by (simp add: authAPI_login_stores_token)
  show "fst (authAPI_login net em pw w) = Inr (JObj kvs)"
    by (simp add: login)
  show stored: "getAuthToken (snd (authAPI_login net em pw w)) = Some t"
    by (simp add: login getAuthToken_def setAuthToken_def)
  fix net' :: network and endpoint options and w' :: world
  assume b: "storage w' = storage (snd (authAPI_login net em pw w)) \<and> auth_enabled options"
  show "sent (snd (apiRequest net' endpoint options w')) =
           sent w' @ [build_request w' endpoint options]"
    by (simp add: apiRequest_world)
  from a b stored have "getAuthToken w' = Some t"
    by (simp add: getAuthToken_def)
  with a b show "map_of (req_headers (build_request w' endpoint options)) ''Authorization'' =
           Some (''Bearer '' @ t)"
    by (simp add: Authorization_entry)
next
  assume a: "net (sent w) (build_request w ''/auth/login/'' (login_options em pw)) = Response r \<and>
      \<not> ok r"
  then obtain e where e: "authAPI_login net em pw w =
           (Inl e, w\<lparr>sent := sent w @
               [build_request w ''/auth/login/'' (login_options em pw)]\<rparr>)"
      and api: "fst (apiRequest net ''/auth/login/'' (login_options em pw) w) = Inl e"
    using authAPI_login_failure [of net w em pw r] by blast
  show "\<exists>e. fst (authAPI_login net em pw w) = Inl e"
    by (simp add: e)
  show "storage (snd (authAPI_login net em pw w)) = storage w"
    by (simp add: e)
  fix fields m
  assume b: "json_body r = Some (JObj fields) \<and> map_of fields ''message'' = Some (JStr m) \<and>
     m \<noteq> []"
  with a have "fst (apiRequest net ''/auth/login/'' (login_options em pw) w) = Inl (Error m)"
    by (simp add: apiRequest_server_message)
  with api have "e = Error m" by simp
  then show "fst (authAPI_login net em pw w) = Inl (Error m)"
    by (simp add: e)
qed

theorem login_token_witness:
  "ok token_response \<and> \<not> ok denied_response \<and>
   fst (authAPI_login (always_respond token_response) ''staff@company.com'' ''pw''
          initial_world) =
     Inr (JObj [(''token'', JStr ''abc123''), (''user_id'', JNum 7)]) \<and>
   getAuthToken (snd (authAPI_login (always_respond token_response) ''staff@company.com''
          ''pw'' initial_world)) = Some ''abc123'' \<and>
   map req_headers (sent (snd (authAPI_getCurrentUser (always_respond denied_response)
       (snd (authAPI_login (always_respond token_response) ''staff@company.com'' ''pw''
          initial_world))))) =
     [[(''Content-Type'', ''application/json'')],
      [(''Authorization'', ''Bearer abc123''), (''Content-Type'', ''application/json'')]] \<and>
   fst (authAPI_login (always_respond denied_response) ''staff@company.com'' ''bad''
          initial_world) = Inl (Error ''Invalid credentials'') \<and>
   getAuthToken (snd (authAPI_login (always_respond denied_response) ''staff@company.com''
          ''bad'' initial_world)) = None"
  using login_token [of "always_respond token_response" initial_world "''staff@company.com''"
          "''pw''" token_response "[(''token'', JStr ''abc123''), (''user_id'', JNum 7)]"
          "''abc123''"]
        login_token [of "always_respond denied_response" initial_world "''staff@company.com''"
          "''bad''" denied_response]
  by (simp add: always_respond_def token_response_def denied_response_def ok_def
      authAPI_login_def authAPI_getCurrentUser_def apiRequest_def build_request_def
      login_options_def no_options_def initial_world_def with_authorization_def
      with_content_type_def auth_enabled_def getAuthToken_def setAuthToken_def API_URL_def
      truthy_def template_string_def Let_def)

section \<open>Creation form\<close>

text \<open>
  Claim C8. A submission with no proforma attached sends no request, shows one
  notification, of the destructive variant, and leaves the state of the form as it was.
\<close>

theorem submit_without_proforma:
  "proforma st = None \<Longrightarrow>
     handleSubmit net st w = (st, w\<lparr>toasts := toasts w @ [missing_proforma_toast]\<rparr>) \<and>
     sent (snd (handleSubmit net st w)) = sent w \<and>
     fst (handleSubmit net st w) = st \<and>
     variant missing_proforma_toast = Some ''destructive''"
  by (simp add: handleSubmit_def show_toast_def missing_proforma_toast_def)

theorem submit_without_proforma_witness:
  "proforma initial_form = None \<and>
   fst (handleSubmit (always_respond created_response) initial_form initial_world) =
     initial_form \<and>
   sent (snd (handleSubmit (always_respond created_response) initial_form initial_world)) = [] \<and>
   map toast_title (toasts (snd (handleSubmit (always_respond created_response) initial_form
     initial_world))) = [''Missing proforma'']"
proof -
  have h: "proforma initial_form = None"
    by (simp add: initial_form_def)
  show ?thesis
    using h submit_without_proforma [OF h, of "always_respond created_response" initial_world]
    by (simp add: initial_world_def missing_proforma_toast_def)
qed

lemma submit_with_proforma_sends:
  "proforma st = Some f \<Longrightarrow>
     sent (snd (handleSubmit net st w)) =
       sent w @ [build_request w ''/requests/''
         (create_options [(''title'', FormText (form_title st)),
                          (''description'', FormText (form_description st)),
                          (''amount'', FormText (form_amount st)),
                          (''proforma'', FormFile f)])]"
proof -
  assume p: "proforma st = Some f"
  let ?data = "[(''title'', FormText (form_title st)),
                (''description'', FormText (form_description st)),
                (''amount'', FormText (form_amount st)),
                (''proforma'', FormFile f)]"
  obtain x w1 where api: "apiRequest net ''/requests/'' (create_options ?data) w = (x, w1)"
    by (cases "apiRequest net ''/requests/'' (create_options ?data) w")
  then have w1: "w1 = w\<lparr>sent := sent w @ [build_request w ''/requests/'' (create_options ?data)]\<rparr>"
    using apiRequest_world [of net "''/requests/''" "create_options ?data" w] by simp
  show ?thesis
    using p api w1
    by (simp add: handleSubmit_def requestsAPI_create_def Let_def show_toast_def navigate_def
        split: sum.splits)
qed

section \<open>Access to the creation form\<close>

lemma Layout_menu_new_request:
  "(''/requests/new'' \<in> set (map to (Layout_menu user))) \<longleftrightarrow>
     (\<exists>u. user = Some u \<and> role u = ''staff'')"
  by (cases user) (auto simp: Layout_menu_def navItems_def)

text \<open>
  Claim C2. For every user whose role is not \<^verbatim>\<open>staff\<close> no navigation item and no button
  leading to the creation form is rendered: the sidebar item and the buttons of the
  dashboard and of the list page are rendered exactly for a signed-in user of role
  \<^verbatim>\<open>staff\<close>. The route shows such a user no creation view, and so they cannot trigger
  its submit action. The links are those of the sources; the route is the one modelled
  from the specification, the component itself checking no role.
\<close>

theorem creation_form_staff_only:
  "((''/requests/new'' \<in> set (map to (Layout_menu user))) \<longleftrightarrow>
       (\<exists>u. user = Some u \<and> role u = ''staff'')) \<and>
   (Dashboard_newRequestButton user \<longleftrightarrow> (\<exists>u. user = Some u \<and> role u = ''staff'')) \<and>
   (RequestsList_newRequestButton user \<longleftrightarrow> (\<exists>u. user = Some u \<and> role u = ''staff'')) \<and>
   (role u \<noteq> ''staff'' \<longrightarrow>
      ''/requests/new'' \<notin> set (map to (Layout_menu (Some u))) \<and>
      \<not> Dashboard_newRequestButton (Some u) \<and>
      \<not> RequestsList_newRequestButton (Some u) \<and>
      creation_route (Some u) st = None \<and>
      submit_creation_form net (Some u) st w = None)"
proof -
  have menu: "(''/requests/new'' \<in> set (map to (Layout_menu v))) \<longleftrightarrow>
       (\<exists>u. v = Some u \<and> role u = ''staff'')" for v
    by (rule Layout_menu_new_request)
  have dash: "Dashboard_newRequestButton v \<longleftrightarrow> (\<exists>u. v = Some u \<and> role u = ''staff'')" for v
    by (cases v) (simp_all add: Dashboard_newRequestButton_def)
  have lst: "RequestsList_newRequestButton v \<longleftrightarrow> (\<exists>u. v = Some u \<and> role u = ''staff'')" for v
    by (cases v) (simp_all add: RequestsList_newRequestButton_def)
  have hidden: "role u \<noteq> ''staff'' \<longrightarrow>
      ''/requests/new'' \<notin> set (map to (Layout_menu (Some u))) \<and>
      \<not> Dashboard_newRequestButton (Some u) \<and>
      \<not> RequestsList_newRequestButton (Some u) \<and>
      creation_route (Some u) st = None \<and>
      submit_creation_form net (Some u) st w = None"
    unfolding menu dash lst by (simp add: creation_route_def submit_creation_form_def)
  from menu dash lst hidden show ?thesis by blast
qed

theorem creation_form_staff_only_witness:
  "role finance_officer \<noteq> ''staff'' \<and>
   map to (Layout_menu (Some finance_officer)) = [''/dashboard'', ''/requests''] \<and>
   \<not> Dashboard_newRequestButton (Some finance_officer) \<and>
   \<not> RequestsList_newRequestButton (Some finance_officer) \<and>
   creation_route (Some finance_officer) filled_form = None \<and>
   submit_creation_form (always_respond created_response) (Some finance_officer) filled_form
     initial_world = None \<and>
   map to (Layout_menu (Some staff_member)) = [''/dashboard'', ''/requests'', ''/requests/new''] \<and>
   creation_route (Some staff_member) filled_form = Some (CreationFormPage False)"
  using creation_form_staff_only [where user = "Some finance_officer" and u = finance_officer
      and st = filled_form and net = "always_respond created_response" and w = initial_world]
  by (simp add: finance_officer_def staff_member_def Layout_menu_def navItems_def
      creation_route_def NewRequest_def filled_form_def)

end
